theory Spec2Isabelle
  imports Complex_Main
begin

section \<open>Data model of the edit configuration (types/editConfig.ts)\<close>

text \<open>
  JavaScript numbers are modelled as real numbers: the properties below are about the
  arithmetic the editor intends, so rounding of IEEE doubles is not represented.
  Identifiers are strings.  A field name that several interfaces share carries a short
  prefix, since record selectors are global constants.
\<close>

datatype OutputRatio = Ratio_9_16 | Ratio_1_1 | Ratio_4_5

datatype CutReason = cut_silence | cut_uhm | cut_repetition | cut_filler | cut_manual

record CutConfig =
  cut_id :: string
  cut_start :: real
  cut_end :: real
  cut_reason :: CutReason

datatype Easing = ease_in_out | ease_in | linear | snap

record ZoomConfig =
  zoom_id :: string
  zoom_time :: real
  zoom_duration :: real
  scale :: real
  easing :: Easing
  anchorX :: real
  anchorY :: real
  zoom_reason :: string

datatype ReframingMode = face_track | center | manual_crop

record ReframingConfig =
  reframing_enabled :: bool
  reframing_mode :: ReframingMode
  manualCropX :: "real option"

datatype CaptionStyleType = hormozi | minimal | karaoke | bold | outline | custom

datatype CaptionPosition = pos_bottom | pos_center | pos_top

datatype CaptionFontSize = font_small | font_medium | font_large

datatype CaptionAnimation = word_by_word | line_by_line | anim_fade | anim_none

record CaptionConfig =
  captions_enabled :: bool
  captions_style :: CaptionStyleType
  captions_position :: CaptionPosition
  captions_fontSize :: CaptionFontSize
  primaryColor :: string
  highlightColor :: string
  captions_backgroundColor :: "string option"
  font :: string
  maxWordsPerLine :: real
  animation :: CaptionAnimation
  highlightKeywords :: bool
  customKeywords :: "string list"

datatype IntroTransition = intro_none | intro_fade_in | intro_slide_up | intro_zoom_in

datatype OutroTransition = outro_none | outro_fade_out | outro_slide_down

datatype BetweenCuts = between_hard | between_crossfade | between_swipe

record TransitionConfig =
  intro :: IntroTransition
  outro :: OutroTransition
  betweenCuts :: BetweenCuts

record MusicConfig =
  music_enabled :: bool
  track :: "string option"
  music_volume :: real
  duckOnSpeech :: bool

record SoundEffectsConfig =
  sfx_enabled :: bool
  whooshOnCut :: bool
  boomOnKeyMoment :: bool
  sfx_volume :: real

record AudioConfig =
  normalizeVolume :: bool
  removeBackgroundNoise :: bool
  music :: MusicConfig
  soundEffects :: SoundEffectsConfig

record Watermark =
  watermark_enabled :: bool
  imageUrl :: "string option"
  watermark_position :: string

record OverlayConfig =
  progressBar :: bool
  hookText :: "string option"
  ctaText :: "string option"
  watermark :: Watermark

datatype SegmentTransition =
  tr_none | tr_hard | tr_crossfade | tr_fade | tr_wipe_left | tr_wipe_right
  | tr_slide_up | tr_dissolve | tr_zoom_in | tr_circle

record SegmentConfig =
  seg_id :: string
  sourceStart :: real
  sourceEnd :: real
  transition :: SegmentTransition
  transitionDuration :: "real option"

record CaptionOverride =
  override_text :: "string option"
  hidden :: "bool option"
  highlight :: "bool option"

text \<open>
  The annotation interface is not among the type declarations under src/; its fields are
  the ones the store's \<open>addAnnotation\<close> writes.
\<close>

record AnnotationStyle =
  fontFamily :: string
  ann_fontSize :: real
  color :: string
  ann_backgroundColor :: "string option"
  ann_bold :: bool
  italic :: bool
  borderRadius :: real

record AnnotationConfig =
  ann_id :: string
  ann_type :: string
  content :: string
  ann_x :: real
  ann_y :: real
  ann_width :: real
  ann_height :: real
  startTime :: real
  endTime :: real
  ann_style :: AnnotationStyle

text \<open>
  \<open>captionOverrides\<close> is a sparse object keyed by word index: a map.  \<open>annotations\<close> is
  read by the store as \<open>annotations || []\<close>, so it can be absent.
\<close>

record EditConfig =
  outputRatio :: OutputRatio
  segments :: "SegmentConfig list"
  cuts :: "CutConfig list"
  zooms :: "ZoomConfig list"
  reframing :: ReframingConfig
  captions :: CaptionConfig
  transitions :: TransitionConfig
  audio :: AudioConfig
  overlays :: OverlayConfig
  captionOverrides :: "int \<rightharpoonup> CaptionOverride"
  annotations :: "AnnotationConfig list option"

section \<open>Output ranges of the segment track (components/editor/Timeline.tsx)\<close>

text \<open>\<open>timeToX\<close> and \<open>xToTime\<close>: pixels per second is the store's \<open>timelineZoom\<close>.\<close>

definition timeToX :: "real \<Rightarrow> real \<Rightarrow> real" where
  "timeToX timelineZoom t = t * timelineZoom"

definition xToTime :: "real \<Rightarrow> real \<Rightarrow> real" where
  "xToTime timelineZoom x = x / timelineZoom"

record SegmentBlock = SegmentConfig +
  outputStart :: real
  outputEnd :: real
  width :: real
  left :: real

text \<open>
  \<open>segmentBlocks\<close> maps over the segments with a running \<open>outputOffset\<close> that starts
  at 0; \<open>blocksFrom\<close> is that loop with the offset as an argument.
\<close>

fun blocksFrom :: "real \<Rightarrow> real \<Rightarrow> SegmentConfig list \<Rightarrow> SegmentBlock list" where
  "blocksFrom timelineZoom outputOffset [] = []"
| "blocksFrom timelineZoom outputOffset (seg # rest) =
     (let duration = sourceEnd seg - sourceStart seg in
      \<lparr> seg_id = seg_id seg, sourceStart = sourceStart seg, sourceEnd = sourceEnd seg,
        transition = transition seg, transitionDuration = transitionDuration seg,
        outputStart = outputOffset, outputEnd = outputOffset + duration,
        width = timeToX timelineZoom duration, left = timeToX timelineZoom outputOffset \<rparr>
      # blocksFrom timelineZoom (outputOffset + duration) rest)"

definition segmentBlocks :: "real \<Rightarrow> EditConfig option \<Rightarrow> SegmentBlock list" where
  "segmentBlocks timelineZoom editConfig =
     (case editConfig of None \<Rightarrow> [] | Some cfg \<Rightarrow> blocksFrom timelineZoom 0 (segments cfg))"

definition segDuration :: "SegmentConfig \<Rightarrow> real" where
  "segDuration seg = sourceEnd seg - sourceStart seg"

text \<open>
  Modelled from the spec: the time map's \<open>totalDuration\<close> (lib/editor/TimeMap.ts is not
  among the sources).  Section 4.1: \<open>totalDuration\<close> is the sum of the segment durations.
\<close>

definition timeMap_totalDuration :: "SegmentConfig list \<Rightarrow> real" where
  "timeMap_totalDuration segs = sum_list (map segDuration segs)"

section \<open>Session store (stores/editorStore.ts, the version with the debounced update)\<close>

subsection \<open>State\<close>

datatype ElementType = el_segment | el_caption | el_zoom | el_annotation

record SelectedElement =
  sel_type :: ElementType
  sel_id :: string
  sel_index :: "real option"

record Word =
  word :: string
  word_start :: real
  word_end :: real
  confidence :: real
  speaker :: "real option"

record SourceVideo =
  sv_id :: string
  originalName :: string
  storageUrl :: string
  sv_duration :: real
  fileSize :: real
  sv_order :: real
  offsetInTimeline :: real

text \<open>
  Of a clip the store reads \<open>editConfig\<close> only; the other fields of the interface sit in
  the record's extension slot.  The project is never inspected: a type variable.
\<close>

record Clip =
  clip_editConfig :: EditConfig

record ('c, 'p) EditorState =
  clip :: "'c Clip_scheme option"
  project :: "'p option"
  sourceVideoUrl :: "string option"
  proxyVideoUrl :: "string option"
  useProxy :: bool
  sourceVideos :: "SourceVideo list"
  transcript :: "Word list"
  clipStart :: real
  clipEnd :: real
  editConfig :: "EditConfig option"
  editHistory :: "EditConfig list"
  editFuture :: "EditConfig list"
  selectedElement :: "SelectedElement option"
  timelineZoom :: real
  timelineScroll :: real
  isPlaying :: bool
  currentTime :: real
  totalDuration :: real
  isDirty :: bool
  isSaving :: bool
  lastSavedAt :: "nat option"

text \<open>
  The module keeps two variables beside the store: \<open>_debounceTimer\<close> and
  \<open>_debounceSnapshot\<close>.  A pending timeout is represented by the clock value (in
  milliseconds) at which it is due; \<open>now\<close> is the clock that \<open>Date.now()\<close> reads.
\<close>

record ('c, 'p) World =
  store :: "('c, 'p) EditorState"
  debounceTimer :: "nat option"
  debounceSnapshot :: "EditConfig option"
  now :: nat

definition MAX_HISTORY :: nat where
  "MAX_HISTORY = 50"

definition DEBOUNCE_MS :: nat where
  "DEBOUNCE_MS = 300"

text \<open>\<open>xs.slice(-n)\<close>: the last \<open>n\<close> elements, all of them when there are fewer.\<close>

definition sliceLast :: "nat \<Rightarrow> 'a list \<Rightarrow> 'a list" where
  "sliceLast n xs = drop (length xs - n) xs"

text \<open>
  The segment library (lib/editor/segments.ts) is not among the sources.  The store's
  operations take its four functions as a parameter, so every statement about the store
  holds for whatever the library computes.
\<close>

datatype Edge = edge_start | edge_end

record SegmentLib =
  splitSeg :: "SegmentConfig list \<Rightarrow> string \<Rightarrow> real \<Rightarrow> SegmentConfig list"
  adjustEdge :: "SegmentConfig list \<Rightarrow> string \<Rightarrow> Edge \<Rightarrow> real \<Rightarrow> SegmentConfig list"
  deleteSeg :: "SegmentConfig list \<Rightarrow> string \<Rightarrow> SegmentConfig list"
  segmentsToCuts :: "SegmentConfig list \<Rightarrow> real \<Rightarrow> CutConfig list"

subsection \<open>Partial updates\<close>

text \<open>
  \<open>Partial<T>\<close>: every field optional.  \<open>{...a, ...changes}\<close> keeps a field of \<open>a\<close>
  unless \<open>changes\<close> has it.
\<close>

definition orElse :: "'a option \<Rightarrow> 'a \<Rightarrow> 'a" where
  "orElse change old = (case change of None \<Rightarrow> old | Some v \<Rightarrow> v)"

record EditConfigChanges =
  p_outputRatio :: "OutputRatio option"
  p_segments :: "SegmentConfig list option"
  p_cuts :: "CutConfig list option"
  p_zooms :: "ZoomConfig list option"
  p_reframing :: "ReframingConfig option"
  p_captions :: "CaptionConfig option"
  p_transitions :: "TransitionConfig option"
  p_audio :: "AudioConfig option"
  p_overlays :: "OverlayConfig option"
  p_captionOverrides :: "(int \<rightharpoonup> CaptionOverride) option"
  p_annotations :: "AnnotationConfig list option"

definition mergeEditConfig :: "EditConfig \<Rightarrow> EditConfigChanges \<Rightarrow> EditConfig" where
  "mergeEditConfig cfg changes =
     \<lparr> outputRatio = orElse (p_outputRatio changes) (outputRatio cfg),
       segments = orElse (p_segments changes) (segments cfg),
       cuts = orElse (p_cuts changes) (cuts cfg),
       zooms = orElse (p_zooms changes) (zooms cfg),
       reframing = orElse (p_reframing changes) (reframing cfg),
       captions = orElse (p_captions changes) (captions cfg),
       transitions = orElse (p_transitions changes) (transitions cfg),
       audio = orElse (p_audio changes) (audio cfg),
       overlays = orElse (p_overlays changes) (overlays cfg),
       captionOverrides = orElse (p_captionOverrides changes) (captionOverrides cfg),
       annotations = (case p_annotations changes of None \<Rightarrow> annotations cfg | Some a \<Rightarrow> Some a) \<rparr>"

record ZoomChanges =
  p_zoom_id :: "string option"
  p_zoom_time :: "real option"
  p_zoom_duration :: "real option"
  p_scale :: "real option"
  p_easing :: "Easing option"
  p_anchorX :: "real option"
  p_anchorY :: "real option"
  p_zoom_reason :: "string option"

definition mergeZoom :: "ZoomConfig \<Rightarrow> ZoomChanges \<Rightarrow> ZoomConfig" where
  "mergeZoom z changes =
     \<lparr> zoom_id = orElse (p_zoom_id changes) (zoom_id z),
       zoom_time = orElse (p_zoom_time changes) (zoom_time z),
       zoom_duration = orElse (p_zoom_duration changes) (zoom_duration z),
       scale = orElse (p_scale changes) (scale z),
       easing = orElse (p_easing changes) (easing z),
       anchorX = orElse (p_anchorX changes) (anchorX z),
       anchorY = orElse (p_anchorY changes) (anchorY z),
       zoom_reason = orElse (p_zoom_reason changes) (zoom_reason z) \<rparr>"

record CaptionChanges =
  p_captions_enabled :: "bool option"
  p_captions_style :: "CaptionStyleType option"
  p_captions_position :: "CaptionPosition option"
  p_captions_fontSize :: "CaptionFontSize option"
  p_primaryColor :: "string option"
  p_highlightColor :: "string option"
  p_captions_backgroundColor :: "string option option"
  p_font :: "string option"
  p_maxWordsPerLine :: "real option"
  p_animation :: "CaptionAnimation option"
  p_highlightKeywords :: "bool option"
  p_customKeywords :: "string list option"

definition mergeCaptions :: "CaptionConfig \<Rightarrow> CaptionChanges \<Rightarrow> CaptionConfig" where
  "mergeCaptions c changes =
     \<lparr> captions_enabled = orElse (p_captions_enabled changes) (captions_enabled c),
       captions_style = orElse (p_captions_style changes) (captions_style c),
       captions_position = orElse (p_captions_position changes) (captions_position c),
       captions_fontSize = orElse (p_captions_fontSize changes) (captions_fontSize c),
       primaryColor = orElse (p_primaryColor changes) (primaryColor c),
       highlightColor = orElse (p_highlightColor changes) (highlightColor c),
       captions_backgroundColor =
         orElse (p_captions_backgroundColor changes) (captions_backgroundColor c),
       font = orElse (p_font changes) (font c),
       maxWordsPerLine = orElse (p_maxWordsPerLine changes) (maxWordsPerLine c),
       animation = orElse (p_animation changes) (animation c),
       highlightKeywords = orElse (p_highlightKeywords changes) (highlightKeywords c),
       customKeywords = orElse (p_customKeywords changes) (customKeywords c) \<rparr>"

record AnnotationChanges =
  p_ann_id :: "string option"
  p_ann_type :: "string option"
  p_content :: "string option"
  p_ann_x :: "real option"
  p_ann_y :: "real option"
  p_ann_width :: "real option"
  p_ann_height :: "real option"
  p_startTime :: "real option"
  p_endTime :: "real option"
  p_ann_style :: "AnnotationStyle option"

definition mergeAnnotation :: "AnnotationConfig \<Rightarrow> AnnotationChanges \<Rightarrow> AnnotationConfig" where
  "mergeAnnotation a changes =
     \<lparr> ann_id = orElse (p_ann_id changes) (ann_id a),
       ann_type = orElse (p_ann_type changes) (ann_type a),
       content = orElse (p_content changes) (content a),
       ann_x = orElse (p_ann_x changes) (ann_x a),
       ann_y = orElse (p_ann_y changes) (ann_y a),
       ann_width = orElse (p_ann_width changes) (ann_width a),
       ann_height = orElse (p_ann_height changes) (ann_height a),
       startTime = orElse (p_startTime changes) (startTime a),
       endTime = orElse (p_endTime changes) (endTime a),
       ann_style = orElse (p_ann_style changes) (ann_style a) \<rparr>"

subsection \<open>Helpers\<close>

definition pushHistory :: "('c, 'p) EditorState \<Rightarrow> EditConfig list \<times> EditConfig list" where
  "pushHistory state =
     (case editConfig state of
        None \<Rightarrow> (editHistory state, editFuture state)
      | Some cfg \<Rightarrow> (sliceLast MAX_HISTORY (editHistory state @ [cfg]), []))"

definition clampZoomAnchor :: "real \<Rightarrow> real \<Rightarrow> real \<Rightarrow> real \<times> real" where
  "clampZoomAnchor ax ay sc =
     (let half = 0.5 / sc in (min (max ax half) (1 - half), min (max ay half) (1 - half)))"

definition syncCutsFromSegments :: "SegmentLib \<Rightarrow> EditConfig \<Rightarrow> real \<Rightarrow> EditConfig" where
  "syncCutsFromSegments lib config clipDuration =
     config\<lparr>cuts := segmentsToCuts lib (segments config) clipDuration\<rparr>"

text \<open>\<open>n.toString(36)\<close> for a non-negative integer.\<close>

definition digit36 :: "nat \<Rightarrow> char" where
  "digit36 d = ''0123456789abcdefghijklmnopqrstuvwxyz'' ! d"

function toString36 :: "nat \<Rightarrow> string" where
  "toString36 n = (if n < 36 then [digit36 n] else toString36 (n div 36) @ [digit36 (n mod 36)])"
  by pat_completeness auto
termination
  by (relation "measure (\<lambda>n. n)") auto

declare toString36.simps [simp del]

subsection \<open>The store's initial state and its actions\<close>

definition initialState :: "('c, 'p) EditorState" where
  "initialState =
     \<lparr> clip = None, project = None, sourceVideoUrl = None, proxyVideoUrl = None,
       useProxy = True, sourceVideos = [], transcript = [], clipStart = 0, clipEnd = 0,
       editConfig = None, editHistory = [], editFuture = [], selectedElement = None,
       timelineZoom = 50, timelineScroll = 0, isPlaying = False, currentTime = 0,
       totalDuration = 0, isDirty = False, isSaving = False, lastSavedAt = None \<rparr>"

definition initialWorld :: "nat \<Rightarrow> ('c, 'p) World" where
  "initialWorld t =
     \<lparr> store = initialState, debounceTimer = None, debounceSnapshot = None, now = t \<rparr>"

record ('c, 'p) InitParams =
  init_clip :: "'c Clip_scheme"
  init_project :: 'p
  init_sourceVideoUrl :: string
  init_proxyVideoUrl :: "string option"
  init_sourceVideos :: "SourceVideo list option"
  init_transcript :: "Word list"
  init_clipStart :: real
  init_clipEnd :: real

text \<open>A string is truthy unless it is absent or empty.\<close>

definition truthyString :: "string option \<Rightarrow> bool" where
  "truthyString s = (case s of None \<Rightarrow> False | Some v \<Rightarrow> v \<noteq> [])"

definition initialize :: "('c, 'p) InitParams \<Rightarrow> ('c, 'p) World \<Rightarrow> ('c, 'p) World" where
  "initialize ps w =
     w\<lparr>store := (store w)\<lparr>
        clip := Some (init_clip ps),
        project := Some (init_project ps),
        sourceVideoUrl := Some (init_sourceVideoUrl ps),
        proxyVideoUrl := (if truthyString (init_proxyVideoUrl ps) then init_proxyVideoUrl ps else None),
        useProxy := truthyString (init_proxyVideoUrl ps),
        sourceVideos := (case init_sourceVideos ps of None \<Rightarrow> [] | Some vs \<Rightarrow> vs),
        transcript := init_transcript ps,
        clipStart := init_clipStart ps,
        clipEnd := init_clipEnd ps,
        editConfig := Some (clip_editConfig (init_clip ps)),
        editHistory := [],
        editFuture := [],
        selectedElement := None,
        isDirty := False\<rparr>\<rparr>"

definition toggleProxy :: "('c, 'p) World \<Rightarrow> ('c, 'p) World" where
  "toggleProxy w =
     (if \<not> truthyString (proxyVideoUrl (store w)) then w
      else w\<lparr>store := (store w)\<lparr>useProxy := \<not> useProxy (store w)\<rparr>\<rparr>)"

definition setPlaybackState :: "bool \<Rightarrow> real \<Rightarrow> real \<Rightarrow> ('c, 'p) World \<Rightarrow> ('c, 'p) World" where
  "setPlaybackState playing t dur w =
     w\<lparr>store := (store w)\<lparr>isPlaying := playing, currentTime := t, totalDuration := dur\<rparr>\<rparr>"

definition updateEditConfig ::
  "SegmentLib \<Rightarrow> EditConfigChanges \<Rightarrow> ('c, 'p) World \<Rightarrow> ('c, 'p) World" where
  "updateEditConfig lib changes w =
     (let state = store w in
      case editConfig state of
        None \<Rightarrow> w
      | Some cfg \<Rightarrow>
          let historyUpdate = pushHistory state;
              clipDuration = clipEnd state - clipStart state;
              merged = mergeEditConfig cfg changes;
              newConfig = (if p_segments changes \<noteq> None
                           then syncCutsFromSegments lib merged clipDuration else merged)
          in w\<lparr>store := state\<lparr>editConfig := Some newConfig,
                 editHistory := fst historyUpdate, editFuture := snd historyUpdate,
                 isDirty := True\<rparr>\<rparr>)"

text \<open>The body of the timeout that \<open>updateEditConfigDebounced\<close> schedules.\<close>

definition debounceCallback :: "('c, 'p) World \<Rightarrow> ('c, 'p) World" where
  "debounceCallback w =
     (let current = store w;
          committed =
            (case (debounceSnapshot w, editConfig current) of
               (Some snapshot, Some _) \<Rightarrow>
                 current\<lparr>editHistory := sliceLast MAX_HISTORY (editHistory current @ [snapshot]),
                         editFuture := []\<rparr>
             | _ \<Rightarrow> current)
      in w\<lparr>store := committed, debounceSnapshot := None, debounceTimer := None\<rparr>)"

text \<open>
  Time passing up to clock value \<open>t\<close> with no call in between: a timeout that is due by
  then has run.  The callback schedules nothing, and at most one timeout is pending.
\<close>

definition advance :: "nat \<Rightarrow> ('c, 'p) World \<Rightarrow> ('c, 'p) World" where
  "advance t w =
     (let fired = (case debounceTimer w of
                     Some due \<Rightarrow> if due \<le> t then debounceCallback w else w
                   | None \<Rightarrow> w)
      in fired\<lparr>now := max (now w) t\<rparr>)"

definition updateEditConfigDebounced ::
  "SegmentLib \<Rightarrow> EditConfigChanges \<Rightarrow> ('c, 'p) World \<Rightarrow> ('c, 'p) World" where
  "updateEditConfigDebounced lib changes w =
     (let state = store w in
      case editConfig state of
        None \<Rightarrow> w
      | Some cfg \<Rightarrow>
          let snapshot = (case debounceSnapshot w of None \<Rightarrow> Some cfg | Some s \<Rightarrow> Some s);
              clipDuration = clipEnd state - clipStart state;
              merged = mergeEditConfig cfg changes;
              newConfig = (if p_segments changes \<noteq> None
                           then syncCutsFromSegments lib merged clipDuration else merged)
          in w\<lparr>store := state\<lparr>editConfig := Some newConfig, isDirty := True\<rparr>,
               debounceSnapshot := snapshot,
               debounceTimer := Some (now w + DEBOUNCE_MS)\<rparr>)"

definition undo :: "('c, 'p) World \<Rightarrow> ('c, 'p) World" where
  "undo w =
     (let w1 = w\<lparr>debounceTimer := None\<rparr>;
          w2 = (case debounceSnapshot w1 of
                  None \<Rightarrow> w1
                | Some snapshot \<Rightarrow>
                    w1\<lparr>store := (store w1)\<lparr>
                          editHistory := sliceLast MAX_HISTORY (editHistory (store w1) @ [snapshot]),
                          editFuture := []\<rparr>,
                       debounceSnapshot := None\<rparr>);
          state = store w2
      in case editConfig state of
           None \<Rightarrow> w2
         | Some cfg \<Rightarrow>
             if editHistory state = [] then w2
             else w2\<lparr>store := state\<lparr>editConfig := Some (last (editHistory state)),
                        editHistory := butlast (editHistory state),
                        editFuture := cfg # editFuture state,
                        isDirty := True\<rparr>\<rparr>)"

definition redo :: "('c, 'p) World \<Rightarrow> ('c, 'p) World" where
  "redo w =
     (let w1 = (if debounceTimer w \<noteq> None
                then w\<lparr>debounceTimer := None, debounceSnapshot := None\<rparr> else w);
          state = store w1
      in case editConfig state of
           None \<Rightarrow> w1
         | Some cfg \<Rightarrow>
             (case editFuture state of
                [] \<Rightarrow> w1
              | nxt # rest \<Rightarrow>
                  w1\<lparr>store := state\<lparr>editConfig := Some nxt,
                        editHistory := editHistory state @ [cfg],
                        editFuture := rest,
                        isDirty := True\<rparr>\<rparr>))"

definition selectElement :: "SelectedElement option \<Rightarrow> ('c, 'p) World \<Rightarrow> ('c, 'p) World" where
  "selectElement element w = w\<lparr>store := (store w)\<lparr>selectedElement := element\<rparr>\<rparr>"

definition setTimelineZoom :: "real \<Rightarrow> ('c, 'p) World \<Rightarrow> ('c, 'p) World" where
  "setTimelineZoom zoom w = w\<lparr>store := (store w)\<lparr>timelineZoom := max 10 (min 200 zoom)\<rparr>\<rparr>"

definition setTimelineScroll :: "real \<Rightarrow> ('c, 'p) World \<Rightarrow> ('c, 'p) World" where
  "setTimelineScroll scroll w = w\<lparr>store := (store w)\<lparr>timelineScroll := max 0 scroll\<rparr>\<rparr>"

definition markSaved :: "('c, 'p) World \<Rightarrow> ('c, 'p) World" where
  "markSaved w =
     w\<lparr>store := (store w)\<lparr>isDirty := False, isSaving := False, lastSavedAt := Some (now w)\<rparr>\<rparr>"

definition markSaving :: "('c, 'p) World \<Rightarrow> ('c, 'p) World" where
  "markSaving w = w\<lparr>store := (store w)\<lparr>isSaving := True\<rparr>\<rparr>"

subsection \<open>Segment actions\<close>

definition splitSegment :: "SegmentLib \<Rightarrow> string \<Rightarrow> real \<Rightarrow> ('c, 'p) World \<Rightarrow> ('c, 'p) World" where
  "splitSegment lib segmentId atSourceTime w =
     (let state = store w in
      case editConfig state of
        None \<Rightarrow> w
      | Some cfg \<Rightarrow>
          let historyUpdate = pushHistory state;
              newSegments = splitSeg lib (segments cfg) segmentId atSourceTime;
              clipDuration = clipEnd state - clipStart state;
              newConfig = syncCutsFromSegments lib (cfg\<lparr>segments := newSegments\<rparr>) clipDuration
          in w\<lparr>store := state\<lparr>editConfig := Some newConfig,
                 editHistory := fst historyUpdate, editFuture := snd historyUpdate,
                 isDirty := True\<rparr>\<rparr>)"

definition deleteSegment :: "SegmentLib \<Rightarrow> string \<Rightarrow> ('c, 'p) World \<Rightarrow> ('c, 'p) World" where
  "deleteSegment lib segmentId w =
     (let state = store w in
      case editConfig state of
        None \<Rightarrow> w
      | Some cfg \<Rightarrow>
          let historyUpdate = pushHistory state;
              newSegments = deleteSeg lib (segments cfg) segmentId;
              clipDuration = clipEnd state - clipStart state;
              newConfig = syncCutsFromSegments lib (cfg\<lparr>segments := newSegments\<rparr>) clipDuration
          in w\<lparr>store := state\<lparr>editConfig := Some newConfig,
                 editHistory := fst historyUpdate, editFuture := snd historyUpdate,
                 isDirty := True\<rparr>\<rparr>)"

definition adjustSegmentEdge ::
  "SegmentLib \<Rightarrow> string \<Rightarrow> Edge \<Rightarrow> real \<Rightarrow> ('c, 'p) World \<Rightarrow> ('c, 'p) World" where
  "adjustSegmentEdge lib segmentId edge newTime w =
     (let state = store w in
      case editConfig state of
        None \<Rightarrow> w
      | Some cfg \<Rightarrow>
          let historyUpdate = pushHistory state;
              newSegments = adjustEdge lib (segments cfg) segmentId edge newTime;
              clipDuration = clipEnd state - clipStart state;
              newConfig = syncCutsFromSegments lib (cfg\<lparr>segments := newSegments\<rparr>) clipDuration
          in w\<lparr>store := state\<lparr>editConfig := Some newConfig,
                 editHistory := fst historyUpdate, editFuture := snd historyUpdate,
                 isDirty := True\<rparr>\<rparr>)"

subsection \<open>Zoom actions\<close>

definition addZoom :: "real \<Rightarrow> ('c, 'p) World \<Rightarrow> ('c, 'p) World" where
  "addZoom t w =
     (let state = store w in
      case editConfig state of
        None \<Rightarrow> w
      | Some cfg \<Rightarrow>
          let historyUpdate = pushHistory state;
              clamped = clampZoomAnchor 0.5 0.4 1.15;
              newZoom = \<lparr> zoom_id = ''z_'' @ toString36 (now w), zoom_time = t,
                          zoom_duration = 0.5, scale = 1.15, easing = ease_in_out,
                          anchorX = fst clamped, anchorY = snd clamped,
                          zoom_reason = ''manual'' \<rparr>
          in w\<lparr>store := state\<lparr>editConfig := Some (cfg\<lparr>zooms := zooms cfg @ [newZoom]\<rparr>),
                 editHistory := fst historyUpdate, editFuture := snd historyUpdate,
                 isDirty := True,
                 selectedElement :=
                   Some \<lparr> sel_type = el_zoom, sel_id = zoom_id newZoom, sel_index = None \<rparr>\<rparr>\<rparr>)"

definition updateZoomEntry :: "string \<Rightarrow> ZoomChanges \<Rightarrow> ZoomConfig \<Rightarrow> ZoomConfig" where
  "updateZoomEntry zoomId changes z =
     (if zoom_id z \<noteq> zoomId then z
      else let merged = mergeZoom z changes;
               clamped = clampZoomAnchor (anchorX merged) (anchorY merged) (scale merged)
           in merged\<lparr>anchorX := fst clamped, anchorY := snd clamped\<rparr>)"

definition updateZoom :: "string \<Rightarrow> ZoomChanges \<Rightarrow> ('c, 'p) World \<Rightarrow> ('c, 'p) World" where
  "updateZoom zoomId changes w =
     (let state = store w in
      case editConfig state of
        None \<Rightarrow> w
      | Some cfg \<Rightarrow>
          let historyUpdate = pushHistory state;
              newZooms = map (updateZoomEntry zoomId changes) (zooms cfg)
          in w\<lparr>store := state\<lparr>editConfig := Some (cfg\<lparr>zooms := newZooms\<rparr>),
                 editHistory := fst historyUpdate, editFuture := snd historyUpdate,
                 isDirty := True\<rparr>\<rparr>)"

text \<open>
  \<open>state.selectedElement?.id === id\<close>: false when nothing is selected; the element's type
  is not compared.
\<close>

definition selectionHasId :: "SelectedElement option \<Rightarrow> string \<Rightarrow> bool" where
  "selectionHasId sel i = (case sel of None \<Rightarrow> False | Some e \<Rightarrow> sel_id e = i)"

definition deleteZoom :: "string \<Rightarrow> ('c, 'p) World \<Rightarrow> ('c, 'p) World" where
  "deleteZoom zoomId w =
     (let state = store w in
      case editConfig state of
        None \<Rightarrow> w
      | Some cfg \<Rightarrow>
          let historyUpdate = pushHistory state;
              newZooms = filter (\<lambda>z. zoom_id z \<noteq> zoomId) (zooms cfg)
          in w\<lparr>store := state\<lparr>editConfig := Some (cfg\<lparr>zooms := newZooms\<rparr>),
                 editHistory := fst historyUpdate, editFuture := snd historyUpdate,
                 isDirty := True,
                 selectedElement :=
                   (if selectionHasId (selectedElement state) zoomId then None
                    else selectedElement state)\<rparr>\<rparr>)"

subsection \<open>Caption actions\<close>

definition emptyOverride :: CaptionOverride where
  "emptyOverride = \<lparr> override_text = None, hidden = None, highlight = None \<rparr>"

text \<open>\<open>{ ...overrides[i] }\<close>: an absent entry spreads to the empty object.\<close>

definition overrideAt :: "(int \<rightharpoonup> CaptionOverride) \<Rightarrow> int \<Rightarrow> CaptionOverride" where
  "overrideAt overrides i = (case overrides i of None \<Rightarrow> emptyOverride | Some existing \<Rightarrow> existing)"

text \<open>\<open>!(existing?.flag)\<close>: an absent flag counts as false.\<close>

definition negated :: "bool option \<Rightarrow> bool" where
  "negated flag = (case flag of None \<Rightarrow> True | Some b \<Rightarrow> \<not> b)"

definition updateCaptionText :: "int \<Rightarrow> string \<Rightarrow> ('c, 'p) World \<Rightarrow> ('c, 'p) World" where
  "updateCaptionText wordIndex newText w =
     (let state = store w in
      case editConfig state of
        None \<Rightarrow> w
      | Some cfg \<Rightarrow>
          let historyUpdate = pushHistory state;
              overrides = captionOverrides cfg;
              overrides' = overrides(wordIndex \<mapsto>
                             (overrideAt overrides wordIndex)\<lparr>override_text := Some newText\<rparr>)
          in w\<lparr>store := state\<lparr>editConfig := Some (cfg\<lparr>captionOverrides := overrides'\<rparr>),
                 editHistory := fst historyUpdate, editFuture := snd historyUpdate,
                 isDirty := True\<rparr>\<rparr>)"

definition toggleWordHighlight :: "int \<Rightarrow> ('c, 'p) World \<Rightarrow> ('c, 'p) World" where
  "toggleWordHighlight wordIndex w =
     (let state = store w in
      case editConfig state of
        None \<Rightarrow> w
      | Some cfg \<Rightarrow>
          let historyUpdate = pushHistory state;
              overrides = captionOverrides cfg;
              existing = overrideAt overrides wordIndex;
              overrides' = overrides(wordIndex \<mapsto>
                             existing\<lparr>highlight := Some (negated (highlight existing))\<rparr>)
          in w\<lparr>store := state\<lparr>editConfig := Some (cfg\<lparr>captionOverrides := overrides'\<rparr>),
                 editHistory := fst historyUpdate, editFuture := snd historyUpdate,
                 isDirty := True\<rparr>\<rparr>)"

definition hideWord :: "int \<Rightarrow> ('c, 'p) World \<Rightarrow> ('c, 'p) World" where
  "hideWord wordIndex w =
     (let state = store w in
      case editConfig state of
        None \<Rightarrow> w
      | Some cfg \<Rightarrow>
          let historyUpdate = pushHistory state;
              overrides = captionOverrides cfg;
              existing = overrideAt overrides wordIndex;
              overrides' = overrides(wordIndex \<mapsto>
                             existing\<lparr>hidden := Some (negated (hidden existing))\<rparr>)
          in w\<lparr>store := state\<lparr>editConfig := Some (cfg\<lparr>captionOverrides := overrides'\<rparr>),
                 editHistory := fst historyUpdate, editFuture := snd historyUpdate,
                 isDirty := True\<rparr>\<rparr>)"

definition updateCaptionStyle :: "CaptionChanges \<Rightarrow> ('c, 'p) World \<Rightarrow> ('c, 'p) World" where
  "updateCaptionStyle changes w =
     (let state = store w in
      case editConfig state of
        None \<Rightarrow> w
      | Some cfg \<Rightarrow>
          let historyUpdate = pushHistory state;
              newCaptions = mergeCaptions (captions cfg) changes
          in w\<lparr>store := state\<lparr>editConfig := Some (cfg\<lparr>captions := newCaptions\<rparr>),
                 editHistory := fst historyUpdate, editFuture := snd historyUpdate,
                 isDirty := True\<rparr>\<rparr>)"

subsection \<open>Annotation actions\<close>

definition annotationsOrEmpty :: "EditConfig \<Rightarrow> AnnotationConfig list" where
  "annotationsOrEmpty cfg = (case annotations cfg of None \<Rightarrow> [] | Some anns \<Rightarrow> anns)"

definition addAnnotation :: "real \<Rightarrow> ('c, 'p) World \<Rightarrow> ('c, 'p) World" where
  "addAnnotation t w =
     (let state = store w in
      case editConfig state of
        None \<Rightarrow> w
      | Some cfg \<Rightarrow>
          let historyUpdate = pushHistory state;
              newAnnotation =
                \<lparr> ann_id = ''ann_'' @ toString36 (now w), ann_type = ''text'', content = ''Text'',
                  ann_x = 50, ann_y = 50, ann_width = 20, ann_height = 5,
                  startTime = t, endTime = min (t + 3) (clipEnd state - clipStart state),
                  ann_style = \<lparr> fontFamily = ''Inter'', ann_fontSize = 32, color = ''#FFFFFF'',
                                ann_backgroundColor = None, ann_bold = True, italic = False,
                                borderRadius = 4 \<rparr> \<rparr>;
              newAnnotations = annotationsOrEmpty cfg @ [newAnnotation]
          in w\<lparr>store := state\<lparr>editConfig := Some (cfg\<lparr>annotations := Some newAnnotations\<rparr>),
                 editHistory := fst historyUpdate, editFuture := snd historyUpdate,
                 isDirty := True,
                 selectedElement :=
                   Some \<lparr> sel_type = el_annotation, sel_id = ann_id newAnnotation,
                          sel_index = None \<rparr>\<rparr>\<rparr>)"

definition updateAnnotation :: "string \<Rightarrow> AnnotationChanges \<Rightarrow> ('c, 'p) World \<Rightarrow> ('c, 'p) World" where
  "updateAnnotation i changes w =
     (let state = store w in
      case editConfig state of
        None \<Rightarrow> w
      | Some cfg \<Rightarrow>
          let historyUpdate = pushHistory state;
              newAnnotations =
                map (\<lambda>a. if ann_id a = i then mergeAnnotation a changes else a) (annotationsOrEmpty cfg)
          in w\<lparr>store := state\<lparr>editConfig := Some (cfg\<lparr>annotations := Some newAnnotations\<rparr>),
                 editHistory := fst historyUpdate, editFuture := snd historyUpdate,
                 isDirty := True\<rparr>\<rparr>)"

definition deleteAnnotation :: "string \<Rightarrow> ('c, 'p) World \<Rightarrow> ('c, 'p) World" where
  "deleteAnnotation i w =
     (let state = store w in
      case editConfig state of
        None \<Rightarrow> w
      | Some cfg \<Rightarrow>
          let historyUpdate = pushHistory state;
              newAnnotations = filter (\<lambda>a. ann_id a \<noteq> i) (annotationsOrEmpty cfg)
          in w\<lparr>store := state\<lparr>editConfig := Some (cfg\<lparr>annotations := Some newAnnotations\<rparr>),
                 editHistory := fst historyUpdate, editFuture := snd historyUpdate,
                 isDirty := True,
                 selectedElement :=
                   (if selectionHasId (selectedElement state) i then None
                    else selectedElement state)\<rparr>\<rparr>)"

section \<open>Timeline interaction (components/editor/Timeline.tsx)\<close>

subsection \<open>Snap points\<close>

record ZoomMarker = ZoomConfig +
  marker_x :: real
  marker_width :: real

definition zoomMarkers :: "real \<Rightarrow> EditConfig option \<Rightarrow> ZoomMarker list" where
  "zoomMarkers tz cfgOpt =
     (case cfgOpt of
        None \<Rightarrow> []
      | Some cfg \<Rightarrow>
          map (\<lambda>z. \<lparr> zoom_id = zoom_id z, zoom_time = zoom_time z,
                      zoom_duration = zoom_duration z, scale = scale z, easing = easing z,
                      anchorX = anchorX z, anchorY = anchorY z, zoom_reason = zoom_reason z,
                      marker_x = timeToX tz (zoom_time z),
                      marker_width = timeToX tz (zoom_duration z) \<rparr>) (zooms cfg))"

text \<open>\<open>Math.round\<close> rounds to the nearest integer, halves upwards.\<close>

definition mathRound :: "real \<Rightarrow> real" where
  "mathRound x = of_int \<lfloor>x + 1 / 2\<rfloor>"

definition roundMs :: "real \<Rightarrow> real" where
  "roundMs p = mathRound (p * 1000) / 1000"

text \<open>\<open>for (let t = 0; t <= dur; t += 1) points.push(t)\<close>, from an arbitrary start.\<close>

function gridFrom :: "real \<Rightarrow> real \<Rightarrow> real list" where
  "gridFrom t dur = (if t \<le> dur then t # gridFrom (t + 1) dur else [])"
  by pat_completeness auto
termination
  by (relation "measure (\<lambda>(t, dur). nat \<lceil>dur - t + 1\<rceil>)") (auto, linarith)

declare gridFrom.simps [simp del]

text \<open>
  \<open>[...new Set(xs)]\<close>: the elements in the order of their first occurrence.  \<open>seen\<close> holds
  the set built so far, newest first.
\<close>

fun dedupeInto :: "'a list \<Rightarrow> 'a list \<Rightarrow> 'a list" where
  "dedupeInto seen [] = rev seen"
| "dedupeInto seen (x # xs) = (if x \<in> set seen then dedupeInto seen xs else dedupeInto (x # seen) xs)"

definition dedupe :: "'a list \<Rightarrow> 'a list" where
  "dedupe xs = dedupeInto [] xs"

text \<open>\<open>a || b\<close> on numbers: \<open>b\<close> when \<open>a\<close> is 0.\<close>

definition numberOr :: "real \<Rightarrow> real \<Rightarrow> real" where
  "numberOr a b = (if a = 0 then b else a)"

definition snapPoints ::
  "SegmentBlock list \<Rightarrow> ZoomMarker list \<Rightarrow> real \<Rightarrow> real \<Rightarrow> real list" where
  "snapPoints blocks markers totalDur clipDuration =
     (let points =
            concat (map (\<lambda>seg. [outputStart seg, outputEnd seg]) blocks)
            @ concat (map (\<lambda>zoom. [zoom_time zoom, zoom_time zoom + zoom_duration zoom]) markers)
            @ gridFrom 0 (numberOr totalDur clipDuration)
      in sort (dedupe (map roundMs points)))"

definition SNAP_THRESHOLD_PX :: real where
  "SNAP_THRESHOLD_PX = 8"

record SnapResult =
  snap_time :: real
  snapped :: bool
  snapPoint :: "real option"

text \<open>
  The loop of \<open>snapTime\<close> over the snap points; the state is \<open>(closest, closestDist)\<close>, with
  \<open>None\<close> for the initial \<open>null\<close> and \<open>Infinity\<close>.
\<close>

fun snapLoop :: "real \<Rightarrow> real \<Rightarrow> real list \<Rightarrow> real option \<times> real option \<Rightarrow> real option \<times> real option" where
  "snapLoop t threshold [] acc = acc"
| "snapLoop t threshold (sp # rest) (closest, closestDist) =
     (let dist = \<bar>t - sp\<bar> in
      if dist < threshold \<and> (case closestDist of None \<Rightarrow> True | Some d \<Rightarrow> dist < d)
      then snapLoop t threshold rest (Some sp, Some dist)
      else snapLoop t threshold rest (closest, closestDist))"

definition snapTime :: "real \<Rightarrow> real list \<Rightarrow> real \<Rightarrow> SnapResult" where
  "snapTime tz points t =
     (let threshold = xToTime tz SNAP_THRESHOLD_PX in
      case fst (snapLoop t threshold points (None, None)) of
        Some closest \<Rightarrow> \<lparr> snap_time = closest, snapped = True, snapPoint = Some closest \<rparr>
      | None \<Rightarrow> \<lparr> snap_time = t, snapped = False, snapPoint = None \<rparr>)"

subsection \<open>Drag gestures\<close>

datatype DragState =
  SegmentEdgeDrag string Edge real
  | ZoomMoveDrag string real

record TimelineState =
  dragState :: "DragState option"
  dragPreviewTime :: "real option"
  snappedPoint :: "real option"
  dragStartX :: real

text \<open>The snap points and the snapping function as the component derives them from the store.\<close>

definition storeSnapPoints :: "('c, 'p) EditorState \<Rightarrow> real list" where
  "storeSnapPoints st =
     snapPoints (segmentBlocks (timelineZoom st) (editConfig st))
       (zoomMarkers (timelineZoom st) (editConfig st))
       (totalDuration st) (clipEnd st - clipStart st)"

definition storeSnapTime :: "('c, 'p) EditorState \<Rightarrow> real \<Rightarrow> SnapResult" where
  "storeSnapTime st t = snapTime (timelineZoom st) (storeSnapPoints st) t"

definition handleSegmentEdgeMouseDown ::
  "real \<Rightarrow> string \<Rightarrow> Edge \<Rightarrow> TimelineState \<times> ('c, 'p) World \<Rightarrow> TimelineState \<times> ('c, 'p) World" where
  "handleSegmentEdgeMouseDown clientX segmentId edge tw =
     (let (ts, w) = tw;
          segs = (case editConfig (store w) of None \<Rightarrow> [] | Some cfg \<Rightarrow> segments cfg)
      in case find (\<lambda>s. seg_id s = segmentId) segs of
           None \<Rightarrow> tw
         | Some seg \<Rightarrow>
             let initial = (case edge of edge_start \<Rightarrow> sourceStart seg | edge_end \<Rightarrow> sourceEnd seg)
             in (ts\<lparr>dragStartX := clientX,
                    dragState := Some (SegmentEdgeDrag segmentId edge initial),
                    dragPreviewTime := Some initial,
                    snappedPoint := None\<rparr>,
                 selectElement
                   (Some \<lparr> sel_type = el_segment, sel_id = segmentId, sel_index = None \<rparr>) w))"

definition handleZoomMouseDown ::
  "real \<Rightarrow> string \<Rightarrow> TimelineState \<times> ('c, 'p) World \<Rightarrow> TimelineState \<times> ('c, 'p) World" where
  "handleZoomMouseDown clientX zoomId tw =
     (let (ts, w) = tw;
          zs = (case editConfig (store w) of None \<Rightarrow> [] | Some cfg \<Rightarrow> zooms cfg)
      in case find (\<lambda>z. zoom_id z = zoomId) zs of
           None \<Rightarrow> tw
         | Some zoom \<Rightarrow>
             (ts\<lparr>dragStartX := clientX,
                 dragState := Some (ZoomMoveDrag zoomId (zoom_time zoom)),
                 dragPreviewTime := Some (zoom_time zoom),
                 snappedPoint := None\<rparr>,
              selectElement (Some \<lparr> sel_type = el_zoom, sel_id = zoomId, sel_index = None \<rparr>) w))"

text \<open>The initial time a drag started from, whichever kind it is.\<close>

definition dragInitialTime :: "DragState \<Rightarrow> real" where
  "dragInitialTime d = (case d of SegmentEdgeDrag _ _ t0 \<Rightarrow> t0 | ZoomMoveDrag _ t0 \<Rightarrow> t0)"

text \<open>
  The listeners for mouse move and mouse up are registered while a drag is in progress
  only; with no drag the handlers do not run.
\<close>

definition handleMouseMove ::
  "real \<Rightarrow> TimelineState \<times> ('c, 'p) World \<Rightarrow> TimelineState \<times> ('c, 'p) World" where
  "handleMouseMove clientX tw =
     (let (ts, w) = tw in
      case dragState ts of
        None \<Rightarrow> tw
      | Some d \<Rightarrow>
          let deltaX = clientX - dragStartX ts;
              deltaTime = xToTime (timelineZoom (store w)) deltaX;
              rawTime = max 0 (dragInitialTime d + deltaTime);
              snp = storeSnapTime (store w) rawTime
          in (ts\<lparr>dragPreviewTime := Some (snap_time snp), snappedPoint := snapPoint snp\<rparr>, w))"

definition timeChange :: "real \<Rightarrow> ZoomChanges" where
  "timeChange t =
     \<lparr> p_zoom_id = None, p_zoom_time = Some t, p_zoom_duration = None, p_scale = None,
       p_easing = None, p_anchorX = None, p_anchorY = None, p_zoom_reason = None \<rparr>"

definition handleMouseUp ::
  "SegmentLib \<Rightarrow> real \<Rightarrow> TimelineState \<times> ('c, 'p) World \<Rightarrow> TimelineState \<times> ('c, 'p) World" where
  "handleMouseUp lib clientX tw =
     (let (ts, w) = tw in
      case dragState ts of
        None \<Rightarrow> tw
      | Some d \<Rightarrow>
          let deltaX = clientX - dragStartX ts;
              deltaTime = xToTime (timelineZoom (store w)) deltaX;
              w' = (if \<bar>deltaX\<bar> > 2 then
                      (case d of
                         SegmentEdgeDrag segmentId edge initialSourceTime \<Rightarrow>
                           let rawTime = max 0 (initialSourceTime + deltaTime);
                               snp = storeSnapTime (store w) rawTime
                           in adjustSegmentEdge lib segmentId edge (snap_time snp) w
                       | ZoomMoveDrag zoomId initialTime \<Rightarrow>
                           let rawTime = max 0 (initialTime + deltaTime);
                               snp = storeSnapTime (store w) rawTime
                           in updateZoom zoomId (timeChange (snap_time snp)) w)
                    else w)
          in (ts\<lparr>dragState := None, dragPreviewTime := None, snappedPoint := None\<rparr>, w'))"

subsection \<open>Deleting the selected element\<close>

definition deleteSelection :: "SegmentLib \<Rightarrow> SelectedElement \<Rightarrow> ('c, 'p) World \<Rightarrow> ('c, 'p) World" where
  "deleteSelection lib sel w =
     (case sel_type sel of
        el_segment \<Rightarrow>
          (case editConfig (store w) of
             None \<Rightarrow> w
           | Some cfg \<Rightarrow>
               if length (segments cfg) > 1
               then selectElement None (deleteSegment lib (sel_id sel) w) else w)
      | el_zoom \<Rightarrow> selectElement None (deleteZoom (sel_id sel) w)
      | el_annotation \<Rightarrow> selectElement None (deleteAnnotation (sel_id sel) w)
      | el_caption \<Rightarrow> w)"

text \<open>
  The key handler: \<open>targetIsField\<close> says that the event's target is an input or a text
  area.  Both \<open>handleKeyDown\<close> and the toolbar's \<open>handleDeleteSelected\<close> run the same
  branches on the selection.
\<close>

definition handleKeyDown :: "SegmentLib \<Rightarrow> string \<Rightarrow> bool \<Rightarrow> ('c, 'p) World \<Rightarrow> ('c, 'p) World" where
  "handleKeyDown lib key targetIsField w =
     (if targetIsField then w
      else if key = ''Delete'' \<or> key = ''Backspace'' then
        (case selectedElement (store w) of
           None \<Rightarrow> w
         | Some sel \<Rightarrow> deleteSelection lib sel w)
      else w)"

definition handleDeleteSelected :: "SegmentLib \<Rightarrow> ('c, 'p) World \<Rightarrow> ('c, 'p) World" where
  "handleDeleteSelected lib w =
     (case selectedElement (store w) of
        None \<Rightarrow> w
      | Some sel \<Rightarrow> deleteSelection lib sel w)"

section \<open>Properties panel (components/editor/PropertiesPanel.tsx)\<close>

text \<open>
  The delete button of the segment panel is rendered when \<open>canDelete\<close> holds; with no
  button there is nothing to click.
\<close>

definition canDelete :: "('c, 'p) EditorState \<Rightarrow> bool" where
  "canDelete st = (case editConfig st of None \<Rightarrow> False | Some cfg \<Rightarrow> length (segments cfg) > 1)"

definition segmentPanelDelete :: "SegmentLib \<Rightarrow> SegmentConfig \<Rightarrow> ('c, 'p) World \<Rightarrow> ('c, 'p) World" where
  "segmentPanelDelete lib segment w =
     (if canDelete (store w) then selectElement None (deleteSegment lib (seg_id segment) w) else w)"

definition zoomsChange :: "ZoomConfig list \<Rightarrow> EditConfigChanges" where
  "zoomsChange zs =
     \<lparr> p_outputRatio = None, p_segments = None, p_cuts = None, p_zooms = Some zs,
       p_reframing = None, p_captions = None, p_transitions = None, p_audio = None,
       p_overlays = None, p_captionOverrides = None, p_annotations = None \<rparr>"

text \<open>The \<open>onChange\<close> handlers of the scale slider and of the two anchor sliders.\<close>

definition zoomScaleSlider :: "SegmentLib \<Rightarrow> ZoomConfig \<Rightarrow> real \<Rightarrow> ('c, 'p) World \<Rightarrow> ('c, 'p) World" where
  "zoomScaleSlider lib zoom v w =
     (case editConfig (store w) of
        None \<Rightarrow> w
      | Some cfg \<Rightarrow>
          updateEditConfigDebounced lib
            (zoomsChange (map (\<lambda>z. if zoom_id z = zoom_id zoom then z\<lparr>scale := v\<rparr> else z) (zooms cfg))) w)"

definition zoomAnchorXSlider :: "SegmentLib \<Rightarrow> ZoomConfig \<Rightarrow> real \<Rightarrow> ('c, 'p) World \<Rightarrow> ('c, 'p) World" where
  "zoomAnchorXSlider lib zoom v w =
     (case editConfig (store w) of
        None \<Rightarrow> w
      | Some cfg \<Rightarrow>
          updateEditConfigDebounced lib
            (zoomsChange (map (\<lambda>z. if zoom_id z = zoom_id zoom then z\<lparr>anchorX := v\<rparr> else z) (zooms cfg))) w)"

definition zoomAnchorYSlider :: "SegmentLib \<Rightarrow> ZoomConfig \<Rightarrow> real \<Rightarrow> ('c, 'p) World \<Rightarrow> ('c, 'p) World" where
  "zoomAnchorYSlider lib zoom v w =
     (case editConfig (store w) of
        None \<Rightarrow> w
      | Some cfg \<Rightarrow>
          updateEditConfigDebounced lib
            (zoomsChange (map (\<lambda>z. if zoom_id z = zoom_id zoom then z\<lparr>anchorY := v\<rparr> else z) (zooms cfg))) w)"

text \<open>The bounds the anchor sliders offer for a zoom of the given scale.\<close>

definition anchorSliderMin :: "real \<Rightarrow> real" where
  "anchorSliderMin sc = mathRound ((0.5 / sc) * 100) / 100"

definition anchorSliderMax :: "real \<Rightarrow> real" where
  "anchorSliderMax sc = mathRound ((1 - 0.5 / sc) * 100) / 100"

section \<open>Coordinate mapper\<close>

text \<open>
  Modelled from the spec: the coordinate mapper's two conversions (lib/editor/TimeMap.ts
  is not among the sources).  Section 4.1: the time map is the table of output offsets
  built from the segments in array order, which is what \<open>blocksFrom\<close> computes;
  \<open>outputToSource t\<close> locates the segment whose range \<open>[outputStart, outputStart + duration)\<close>
  contains \<open>t\<close> and returns \<open>sourceStart + (t - outputStart)\<close>, and clamps to the end of the
  last segment at or beyond the total duration.  Where the spec says nothing (a negative
  time, an empty list) the result is \<open>None\<close>.  The walks over the segments that the
  components do inline (the caption editor's active word, the split at the playhead) are
  not the mapper: they count a segment's end as inside it.
\<close>

definition outputToSource :: "SegmentBlock list \<Rightarrow> real \<Rightarrow> real option" where
  "outputToSource blocks t =
     (case find (\<lambda>b. outputStart b \<le> t \<and> t < outputEnd b) blocks of
        Some b \<Rightarrow> Some (sourceStart b + (t - outputStart b))
      | None \<Rightarrow>
          if blocks \<noteq> [] \<and> outputEnd (last blocks) \<le> t then Some (sourceEnd (last blocks))
          else None)"

text \<open>
  Modelled from the spec: the segment that precedes a source time in a removed region
  most closely, that is, the one with the greatest \<open>sourceEnd\<close> below it (the earlier one
  in array order when two end together).
\<close>

fun nearestPreceding :: "real \<Rightarrow> SegmentBlock list \<Rightarrow> SegmentBlock option" where
  "nearestPreceding s [] = None"
| "nearestPreceding s (b # rest) =
     (let later = nearestPreceding s rest in
      if sourceEnd b < s then
        (case later of
           None \<Rightarrow> Some b
         | Some c \<Rightarrow> if sourceEnd b < sourceEnd c then Some c else Some b)
      else later)"

text \<open>
  Modelled from the spec: \<open>sourceToOutput s\<close> locates the segment whose range
  \<open>[sourceStart, sourceEnd]\<close> contains \<open>s\<close> (the first one in array order, as the lookup of
  the source boundary markers in Timeline.tsx does) and returns
  \<open>outputStart + (s - sourceStart)\<close>; inside a removed region it returns the output
  position of the end of the nearest preceding segment, and \<open>None\<close> when no segment
  precedes.
\<close>

definition sourceToOutput :: "SegmentBlock list \<Rightarrow> real \<Rightarrow> real option" where
  "sourceToOutput blocks s =
     (case find (\<lambda>b. sourceStart b \<le> s \<and> s \<le> sourceEnd b) blocks of
        Some b \<Rightarrow> Some (outputStart b + (s - sourceStart b))
      | None \<Rightarrow>
          (case nearestPreceding s blocks of
             Some b \<Rightarrow> Some (outputEnd b)
           | None \<Rightarrow> None))"

text \<open>The round trip of the spec's section 8, with the conversions chained.\<close>

definition roundTrip :: "SegmentBlock list \<Rightarrow> real \<Rightarrow> real option" where
  "roundTrip blocks s =
     (case sourceToOutput blocks s of
        None \<Rightarrow> None
      | Some t \<Rightarrow>
          (case outputToSource blocks t of
             None \<Rightarrow> None
           | Some s' \<Rightarrow> sourceToOutput blocks s'))"

text \<open>The segment invariant as the round-trip property states it.\<close>

definition validSegments :: "SegmentConfig list \<Rightarrow> bool" where
  "validSegments segs = (segs \<noteq> [] \<and> list_all (\<lambda>seg. sourceStart seg < sourceEnd seg) segs)"

definition insideKept :: "SegmentConfig list \<Rightarrow> real \<Rightarrow> bool" where
  "insideKept segs s = list_ex (\<lambda>seg. sourceStart seg \<le> s \<and> s \<le> sourceEnd seg) segs"

text \<open>Segments in source order without overlap: each ends before every later one starts.\<close>

definition sourceOrdered :: "SegmentConfig list \<Rightarrow> bool" where
  "sourceOrdered segs = sorted_wrt (\<lambda>a b. sourceEnd a \<le> sourceStart b) segs"

definition notAtSegmentEnd :: "SegmentConfig list \<Rightarrow> real \<Rightarrow> bool" where
  "notAtSegmentEnd segs s = list_all (\<lambda>seg. s \<noteq> sourceEnd seg) segs"

section \<open>A segment library to instantiate the store with\<close>

text \<open>
  Modelled from the spec: the four functions of lib/editor/segments.ts, which is not
  among the sources (section 4.2).  The statements about the store hold for every
  library; this one serves to evaluate them on concrete inputs.  The spec leaves open the
  identifier of the second half of a split and the identifiers and reasons of derived
  cuts; they are chosen here.
\<close>

definition MIN_SEGMENT_DURATION :: real where
  "MIN_SEGMENT_DURATION = 0.1"

definition spec_splitSeg :: "SegmentConfig list \<Rightarrow> string \<Rightarrow> real \<Rightarrow> SegmentConfig list" where
  "spec_splitSeg segs i atSourceTime =
     concat (map (\<lambda>seg.
        if seg_id seg = i \<and> sourceStart seg < atSourceTime \<and> atSourceTime < sourceEnd seg
        then [seg\<lparr>sourceEnd := atSourceTime\<rparr>,
              seg\<lparr>seg_id := seg_id seg @ ''_b'', sourceStart := atSourceTime, transition := tr_none\<rparr>]
        else [seg]) segs)"

definition spec_adjustEdge :: "SegmentConfig list \<Rightarrow> string \<Rightarrow> Edge \<Rightarrow> real \<Rightarrow> SegmentConfig list" where
  "spec_adjustEdge segs i edge newTime =
     map (\<lambda>seg.
        if seg_id seg \<noteq> i then seg
        else (case edge of
                edge_start \<Rightarrow>
                  if newTime + MIN_SEGMENT_DURATION < sourceEnd seg
                  then seg\<lparr>sourceStart := newTime\<rparr> else seg
              | edge_end \<Rightarrow>
                  if sourceStart seg + MIN_SEGMENT_DURATION < newTime
                  then seg\<lparr>sourceEnd := newTime\<rparr> else seg)) segs"

definition spec_deleteSeg :: "SegmentConfig list \<Rightarrow> string \<Rightarrow> SegmentConfig list" where
  "spec_deleteSeg segs i = filter (\<lambda>seg. seg_id seg \<noteq> i) segs"

fun spec_gaps :: "SegmentConfig list \<Rightarrow> CutConfig list" where
  "spec_gaps (a # b # rest) =
     (if sourceEnd a < sourceStart b
      then \<lparr> cut_id = ''cut_'' @ seg_id a, cut_start = sourceEnd a, cut_end = sourceStart b,
             cut_reason = cut_manual \<rparr> # spec_gaps (b # rest)
      else spec_gaps (b # rest))"
| "spec_gaps _ = []"

definition spec_segmentsToCuts :: "SegmentConfig list \<Rightarrow> real \<Rightarrow> CutConfig list" where
  "spec_segmentsToCuts segs clipDuration = spec_gaps segs"

definition specLib :: SegmentLib where
  "specLib = \<lparr> splitSeg = spec_splitSeg, adjustEdge = spec_adjustEdge,
               deleteSeg = spec_deleteSeg, segmentsToCuts = spec_segmentsToCuts \<rparr>"

section \<open>Properties of the derived output ranges, as predicates\<close>

text \<open>
  The blocks tile the output timeline in array order: block \<open>i\<close> starts at the sum of the
  durations before it and is as long as its segment, each block starts where the previous
  one ends, the first starts at 0 and the last ends at the total duration.
\<close>

definition outputPartition :: "SegmentConfig list \<Rightarrow> SegmentBlock list \<Rightarrow> bool" where
  "outputPartition segs blocks \<longleftrightarrow>
     length blocks = length segs
     \<and> (\<forall>i \<in> {..<length segs}.
           outputStart (blocks ! i) = sum_list (map segDuration (take i segs))
         \<and> outputEnd (blocks ! i) = outputStart (blocks ! i) + segDuration (segs ! i)
         \<and> (Suc i < length segs \<longrightarrow> outputStart (blocks ! Suc i) = outputEnd (blocks ! i)))
     \<and> (segs \<noteq> [] \<longrightarrow>
           outputStart (hd blocks) = 0 \<and> outputEnd (last blocks) = timeMap_totalDuration segs)"

text \<open>No block reaches into a later one.\<close>

definition nonOverlapping :: "SegmentBlock list \<Rightarrow> bool" where
  "nonOverlapping blocks = sorted_wrt (\<lambda>a b. outputEnd a \<le> outputStart b) blocks"

text \<open>The output ranges of the configuration a world holds, if it holds one.\<close>

definition partitionHolds :: "real \<Rightarrow> ('c, 'p) World \<Rightarrow> bool" where
  "partitionHolds tz w =
     (case editConfig (store w) of
        None \<Rightarrow> True
      | Some cfg \<Rightarrow> outputPartition (segments cfg) (segmentBlocks tz (Some cfg)))"

section \<open>Sequences of store operations\<close>

text \<open>
  The immediate-commit edits of the store: the fourteen actions that call \<open>pushHistory\<close>
  before they apply their mutation.
\<close>

datatype DiscreteEdit =
  UpdateEditConfig EditConfigChanges
  | SplitSegment string real
  | DeleteSegment string
  | AdjustSegmentEdge string Edge real
  | AddZoom real
  | UpdateZoom string ZoomChanges
  | DeleteZoom string
  | UpdateCaptionText int string
  | ToggleWordHighlight int
  | HideWord int
  | UpdateCaptionStyle CaptionChanges
  | AddAnnotation real
  | UpdateAnnotation string AnnotationChanges
  | DeleteAnnotation string

fun applyEdit :: "SegmentLib \<Rightarrow> DiscreteEdit \<Rightarrow> ('c, 'p) World \<Rightarrow> ('c, 'p) World" where
  "applyEdit lib (UpdateEditConfig changes) w = updateEditConfig lib changes w"
| "applyEdit lib (SplitSegment i t) w = splitSegment lib i t w"
| "applyEdit lib (DeleteSegment i) w = deleteSegment lib i w"
| "applyEdit lib (AdjustSegmentEdge i e t) w = adjustSegmentEdge lib i e t w"
| "applyEdit lib (AddZoom t) w = addZoom t w"
| "applyEdit lib (UpdateZoom i changes) w = updateZoom i changes w"
| "applyEdit lib (DeleteZoom i) w = deleteZoom i w"
| "applyEdit lib (UpdateCaptionText i txt) w = updateCaptionText i txt w"
| "applyEdit lib (ToggleWordHighlight i) w = toggleWordHighlight i w"
| "applyEdit lib (HideWord i) w = hideWord i w"
| "applyEdit lib (UpdateCaptionStyle changes) w = updateCaptionStyle changes w"
| "applyEdit lib (AddAnnotation t) w = addAnnotation t w"
| "applyEdit lib (UpdateAnnotation i changes) w = updateAnnotation i changes w"
| "applyEdit lib (DeleteAnnotation i) w = deleteAnnotation i w"

definition applyEdits :: "SegmentLib \<Rightarrow> DiscreteEdit list \<Rightarrow> ('c, 'p) World \<Rightarrow> ('c, 'p) World" where
  "applyEdits lib edits w = foldl (\<lambda>v a. applyEdit lib a v) w edits"

text \<open>
  Everything that can happen to the store and the debounce variables: a call of one of
  the store's actions, or time passing.
\<close>

datatype ('c, 'p) Event =
  Edit DiscreteEdit
  | Debounced EditConfigChanges
  | Undo
  | Redo
  | Initialize "('c, 'p) InitParams"
  | ToggleProxy
  | SetPlaybackState bool real real
  | SelectElement "SelectedElement option"
  | SetTimelineZoom real
  | SetTimelineScroll real
  | MarkSaved
  | MarkSaving
  | Advance nat

fun step :: "SegmentLib \<Rightarrow> ('c, 'p) Event \<Rightarrow> ('c, 'p) World \<Rightarrow> ('c, 'p) World" where
  "step lib (Edit a) w = applyEdit lib a w"
| "step lib (Debounced changes) w = updateEditConfigDebounced lib changes w"
| "step lib Undo w = undo w"
| "step lib Redo w = redo w"
| "step lib (Initialize ps) w = initialize ps w"
| "step lib ToggleProxy w = toggleProxy w"
| "step lib (SetPlaybackState playing t dur) w = setPlaybackState playing t dur w"
| "step lib (SelectElement el) w = selectElement el w"
| "step lib (SetTimelineZoom z) w = setTimelineZoom z w"
| "step lib (SetTimelineScroll x) w = setTimelineScroll x w"
| "step lib MarkSaved w = markSaved w"
| "step lib MarkSaving w = markSaving w"
| "step lib (Advance t) w = advance t w"

definition run :: "SegmentLib \<Rightarrow> ('c, 'p) Event list \<Rightarrow> ('c, 'p) World \<Rightarrow> ('c, 'p) World" where
  "run lib events w = foldl (\<lambda>v ev. step lib ev v) w events"

text \<open>No gesture is waiting for its commit.\<close>

definition debounceIdle :: "('c, 'p) World \<Rightarrow> bool" where
  "debounceIdle w = (debounceTimer w = None \<and> debounceSnapshot w = None)"

section \<open>Gestures: debounced calls in time\<close>

text \<open>
  A gesture is a sequence of calls of \<open>updateEditConfigDebounced\<close>, each at a clock value;
  between two calls time passes and nothing else happens.
\<close>

fun gesture :: "SegmentLib \<Rightarrow> (nat \<times> EditConfigChanges) list \<Rightarrow> ('c, 'p) World \<Rightarrow> ('c, 'p) World" where
  "gesture lib [] w = w"
| "gesture lib ((t, changes) # rest) w =
     gesture lib rest (updateEditConfigDebounced lib changes (advance t w))"

text \<open>
  The calls after one at \<open>prev\<close> are rapid when each comes less than the quiet period after
  the one before it.
\<close>

fun rapid :: "nat \<Rightarrow> (nat \<times> EditConfigChanges) list \<Rightarrow> bool" where
  "rapid prev [] = True"
| "rapid prev ((t, changes) # rest) = (prev \<le> t \<and> t < prev + DEBOUNCE_MS \<and> rapid t rest)"

definition lastCallTime :: "nat \<Rightarrow> (nat \<times> EditConfigChanges) list \<Rightarrow> nat" where
  "lastCallTime t1 rest = last (t1 # map fst rest)"

text \<open>The configuration a debounced call with \<open>changes\<close> puts in place of \<open>cfg\<close>.\<close>

definition appliedConfig ::
  "SegmentLib \<Rightarrow> EditConfigChanges \<Rightarrow> ('c, 'p) EditorState \<Rightarrow> EditConfig \<Rightarrow> EditConfig" where
  "appliedConfig lib changes state cfg =
     (if p_segments changes \<noteq> None
      then syncCutsFromSegments lib (mergeEditConfig cfg changes) (clipEnd state - clipStart state)
      else mergeEditConfig cfg changes)"

section \<open>Zoom anchors and snap sources, as predicates\<close>

text \<open>The anchor invariant of a zoom keyframe: \<open>half \<le> anchor \<le> 1 - half\<close> on both axes.\<close>

definition anchorsInRange :: "ZoomConfig \<Rightarrow> bool" where
  "anchorsInRange z =
     (let half = 0.5 / scale z in
      half \<le> anchorX z \<and> anchorX z \<le> 1 - half \<and> half \<le> anchorY z \<and> anchorY z \<le> 1 - half)"

text \<open>The values that the snap points are taken from, before rounding.\<close>

definition snapSources :: "SegmentBlock list \<Rightarrow> ZoomMarker list \<Rightarrow> real \<Rightarrow> real set" where
  "snapSources blocks markers dur =
     outputStart ` set blocks \<union> outputEnd ` set blocks
     \<union> zoom_time ` set markers \<union> (\<lambda>z. zoom_time z + zoom_duration z) ` set markers
     \<union> {real k | k. real k \<le> dur}"

section \<open>Concrete inputs\<close>

definition mkSeg :: "string \<Rightarrow> real \<Rightarrow> real \<Rightarrow> SegmentConfig" where
  "mkSeg i a b = \<lparr> seg_id = i, sourceStart = a, sourceEnd = b, transition = tr_none,
                 transitionDuration = None \<rparr>"

definition sampleCaptions :: CaptionConfig where
  "sampleCaptions =
     \<lparr> captions_enabled = True, captions_style = hormozi, captions_position = pos_bottom,
       captions_fontSize = font_medium, primaryColor = ''#FFFFFF'', highlightColor = ''#FFD700'',
       captions_backgroundColor = None, font = ''Inter'', maxWordsPerLine = 3,
       animation = word_by_word, highlightKeywords = True, customKeywords = [] \<rparr>"

definition sampleAudio :: AudioConfig where
  "sampleAudio =
     \<lparr> normalizeVolume = True, removeBackgroundNoise = False,
       music = \<lparr> music_enabled = False, track = None, music_volume = 0, duckOnSpeech = False \<rparr>,
       soundEffects = \<lparr> sfx_enabled = False, whooshOnCut = False, boomOnKeyMoment = False,
                        sfx_volume = 0 \<rparr> \<rparr>"

definition sampleOverlays :: OverlayConfig where
  "sampleOverlays =
     \<lparr> progressBar = False, hookText = None, ctaText = None,
       watermark = \<lparr> watermark_enabled = False, imageUrl = None, watermark_position = ''br'' \<rparr> \<rparr>"

definition sampleConfig :: "SegmentConfig list \<Rightarrow> ZoomConfig list \<Rightarrow> EditConfig" where
  "sampleConfig segs zs =
     \<lparr> outputRatio = Ratio_9_16, segments = segs, cuts = [], zooms = zs,
       reframing = \<lparr> reframing_enabled = False, reframing_mode = center, manualCropX = None \<rparr>,
       captions = sampleCaptions,
       transitions = \<lparr> intro = intro_none, outro = outro_none, betweenCuts = between_hard \<rparr>,
       audio = sampleAudio, overlays = sampleOverlays,
       captionOverrides = Map.empty, annotations = None \<rparr>"

text \<open>A loaded editor: the initial store with a clip of 20 seconds and the given configuration.\<close>

definition loadedWorld :: "EditConfig \<Rightarrow> (unit, unit) World" where
  "loadedWorld cfg =
     \<lparr> store = initialState\<lparr>clipStart := 0, clipEnd := 20, editConfig := Some cfg\<rparr>,
       debounceTimer = None, debounceSnapshot = None, now = 1000 \<rparr>"

text \<open>The spec's scenario: the source ranges 0 to 10 and 12 to 20.\<close>

definition twoSegs :: "SegmentConfig list" where
  "twoSegs = [mkSeg ''a'' 0 10, mkSeg ''b'' 12 20]"

definition sampleCfg :: EditConfig where
  "sampleCfg = sampleConfig twoSegs []"

text \<open>Three segments whose source ranges overlap, each longer than the minimum duration.\<close>

definition overlappingSegs :: "SegmentConfig list" where
  "overlappingSegs = [mkSeg ''a'' 0 10, mkSeg ''b'' 5 8, mkSeg ''c'' 4 6]"


definition ratioChange :: "OutputRatio \<Rightarrow> EditConfigChanges" where
  "ratioChange r =
     \<lparr> p_outputRatio = Some r, p_segments = None, p_cuts = None, p_zooms = None,
       p_reframing = None, p_captions = None, p_transitions = None, p_audio = None,
       p_overlays = None, p_captionOverrides = None, p_annotations = None \<rparr>"

definition scaleChange :: "real \<Rightarrow> ZoomChanges" where
  "scaleChange v =
     \<lparr> p_zoom_id = None, p_zoom_time = None, p_zoom_duration = None, p_scale = Some v,
       p_easing = None, p_anchorX = None, p_anchorY = None, p_zoom_reason = None \<rparr>"

definition ratioEdit :: DiscreteEdit where
  "ratioEdit = UpdateEditConfig (ratioChange Ratio_1_1)"

definition twoEdits :: "DiscreteEdit list" where
  "twoEdits = [UpdateEditConfig (ratioChange Ratio_1_1), DeleteSegment ''b'']"

text \<open>A full undo stack: fifty snapshots of the sample configuration.\<close>

definition fullHistoryWorld :: "(unit, unit) World" where
  "fullHistoryWorld =
     (loadedWorld (sampleCfg\<lparr>outputRatio := Ratio_4_5\<rparr>))\<lparr>store :=
        (store (loadedWorld (sampleCfg\<lparr>outputRatio := Ratio_4_5\<rparr>)))\<lparr>
           editHistory := replicate 50 sampleCfg\<rparr>\<rparr>"

text \<open>\<open>n\<close> calls, ten milliseconds apart, from \<open>t\<close> on.\<close>

fun burst :: "nat \<Rightarrow> nat \<Rightarrow> EditConfigChanges \<Rightarrow> (nat \<times> EditConfigChanges) list" where
  "burst t 0 changes = []"
| "burst t (Suc n) changes = (t, changes) # burst (t + 10) n changes"

text \<open>A gesture in flight on a freshly loaded editor: one debounced update, its timeout pending.\<close>

definition gestureWorld :: "(unit, unit) World" where
  "gestureWorld = updateEditConfigDebounced specLib (ratioChange Ratio_4_5) (loadedWorld sampleCfg)"

text \<open>
  A gesture in flight with a non-empty redo stack: an edit, its undo, and then a debounced
  update whose timeout has not run yet.
\<close>

definition pendingWorld :: "(unit, unit) World" where
  "pendingWorld =
     updateEditConfigDebounced specLib (ratioChange Ratio_4_5)
       (undo (applyEdit specLib ratioEdit (loadedWorld sampleCfg)))"

text \<open>A zoom at the widest scale with its anchor at the edge of the allowed range.\<close>

definition wideZoom :: ZoomConfig where
  "wideZoom = \<lparr> zoom_id = ''z1'', zoom_time = 1, zoom_duration = 0.5, scale = 2,
                easing = ease_in_out, anchorX = 0.25, anchorY = 0.25, zoom_reason = ''manual'' \<rparr>"

definition zoomTriple :: "ZoomConfig \<Rightarrow> real \<times> real \<times> real" where
  "zoomTriple z = (scale z, anchorX z, anchorY z)"

definition zoomWorld :: "(unit, unit) World" where
  "zoomWorld = loadedWorld (sampleConfig twoSegs [wideZoom])"

definition zoomSelection :: SelectedElement where
  "zoomSelection = \<lparr> sel_type = el_zoom, sel_id = ''z1'', sel_index = None \<rparr>"

definition segmentSelection :: SelectedElement where
  "segmentSelection = \<lparr> sel_type = el_segment, sel_id = ''a'', sel_index = None \<rparr>"

definition oneSegWorld :: "(unit, unit) World" where
  "oneSegWorld =
     selectElement (Some segmentSelection) (loadedWorld (sampleConfig [mkSeg ''a'' 0 10] []))"

text \<open>A segment that ends off the millisecond grid, and a drag of its end edge.\<close>

definition oddCfg :: EditConfig where
  "oddCfg = sampleConfig [mkSeg ''a'' 0 1.0004] []"

definition oddWorld :: "(unit, unit) World" where
  "oddWorld = setPlaybackState False 0 1.0004 (loadedWorld oddCfg)"

definition edgeDrag :: TimelineState where
  "edgeDrag = \<lparr> dragState = Some (SegmentEdgeDrag ''a'' edge_end 1), dragPreviewTime = Some 1,
                snappedPoint = None, dragStartX = 200 \<rparr>"

section \<open>The output ranges tile the timeline\<close>


lemma blocksFrom_length: "length (blocksFrom tz off segs) = length segs"
  by (induction segs arbitrary: off) (simp_all add: Let_def)

lemma blocksFrom_nth:
  "i < length segs \<Longrightarrow>
     outputStart (blocksFrom tz off segs ! i) = off + sum_list (map segDuration (take i segs))
   \<and> outputEnd (blocksFrom tz off segs ! i) = off + sum_list (map segDuration (take (Suc i) segs))
   \<and> sourceStart (blocksFrom tz off segs ! i) = sourceStart (segs ! i)
   \<and> sourceEnd (blocksFrom tz off segs ! i) = sourceEnd (segs ! i)"
proof (induction segs arbitrary: off i)
  case Nil
  then show ?case by simp
next
  case (Cons a segs)
  show ?case
  proof (cases i)
    case 0
    then show ?thesis by (simp add: Let_def segDuration_def)
  next
    case (Suc k)
    with Cons.prems have "k < length segs" by simp
    from Cons.IH[OF this, of "off + (sourceEnd a - sourceStart a)"] Suc
    show ?thesis by (simp add: Let_def segDuration_def algebra_simps)
  qed
qed

lemma take_Suc_sum:
  "i < length segs \<Longrightarrow> sum_list (map segDuration (take (Suc i) segs))
     = sum_list (map segDuration (take i segs)) + segDuration (segs ! i)"
  by (simp add: take_Suc_conv_app_nth)

lemma sum_take_mono:
  assumes "list_all (\<lambda>seg. sourceStart seg \<le> sourceEnd seg) segs" "i \<le> j"
  shows "sum_list (map segDuration (take i segs)) \<le> sum_list (map segDuration (take j segs))"
proof -
  have "take j segs = take i segs @ drop i (take j segs)"
    using assms(2) by (metis append_take_drop_id min.absorb2 take_take min.commute)
  moreover have "0 \<le> sum_list (map segDuration (drop i (take j segs)))"
  proof (rule sum_list_nonneg)
    fix x assume "x \<in> set (map segDuration (drop i (take j segs)))"
    then obtain sg where "sg \<in> set segs" "x = segDuration sg"
      by (auto dest!: in_set_dropD in_set_takeD)
    with assms(1) show "0 \<le> x" by (auto simp: list_all_iff segDuration_def)
  qed
  ultimately show ?thesis
    by (metis add.commute le_add_same_cancel2 map_append sum_list_append)
qed

lemma outputPartition_blocksFrom: "outputPartition segs (blocksFrom tz 0 segs)"
proof -
  let ?bs = "blocksFrom tz 0 segs"
  have len: "length ?bs = length segs" by (rule blocksFrom_length)
  have nth: "\<And>i. i < length segs \<Longrightarrow>
      outputStart (?bs ! i) = sum_list (map segDuration (take i segs))
    \<and> outputEnd (?bs ! i) = outputStart (?bs ! i) + segDuration (segs ! i)
    \<and> (Suc i < length segs \<longrightarrow> outputStart (?bs ! Suc i) = outputEnd (?bs ! i))"
    using blocksFrom_nth[of _ segs tz 0] by (simp add: take_Suc_sum)
  have ends: "segs \<noteq> [] \<Longrightarrow>
      outputStart (hd ?bs) = 0 \<and> outputEnd (last ?bs) = timeMap_totalDuration segs"
  proof -
    assume ne: "segs \<noteq> []"
    then have "?bs \<noteq> []" using len by auto
    then have h: "hd ?bs = ?bs ! 0" and l: "last ?bs = ?bs ! (length segs - 1)"
      using len by (simp_all add: hd_conv_nth last_conv_nth)
    have "outputEnd (?bs ! (length segs - 1))
           = sum_list (map segDuration (take (Suc (length segs - 1)) segs))"
      using blocksFrom_nth[of "length segs - 1" segs tz 0] ne by simp
    moreover have "outputStart (?bs ! 0) = 0"
      using blocksFrom_nth[of 0 segs tz 0] ne by simp
    ultimately show ?thesis using h l ne by (simp add: timeMap_totalDuration_def)
  qed
  show ?thesis unfolding outputPartition_def using len nth ends by (simp add: take_Suc_sum)
qed

lemma nonOverlapping_blocksFrom:
  assumes "list_all (\<lambda>seg. sourceStart seg \<le> sourceEnd seg) segs"
  shows "nonOverlapping (blocksFrom tz 0 segs)"
  unfolding nonOverlapping_def sorted_wrt_iff_nth_less
proof (intro allI impI)
  fix i j assume ij: "i < j" and j: "j < length (blocksFrom tz 0 segs)"
  then have jl: "j < length segs" and il: "i < length segs" by (simp_all add: blocksFrom_length)
  have "outputEnd (blocksFrom tz 0 segs ! i) = sum_list (map segDuration (take (Suc i) segs))"
    using blocksFrom_nth[OF il, of tz 0] by simp
  moreover have "outputStart (blocksFrom tz 0 segs ! j) = sum_list (map segDuration (take j segs))"
    using blocksFrom_nth[OF jl, of tz 0] by simp
  moreover have "sum_list (map segDuration (take (Suc i) segs)) \<le> sum_list (map segDuration (take j segs))"
    using sum_take_mono[OF assms, of "Suc i" j] ij by simp
  ultimately show "outputEnd (blocksFrom tz 0 segs ! i) \<le> outputStart (blocksFrom tz 0 segs ! j)"
    by simp
qed

lemma partitionHolds_any: "partitionHolds tz w"
  by (simp add: partitionHolds_def segmentBlocks_def outputPartition_blocksFrom split: option.split)

text \<open>
  C2.  For every configuration the blocks derived from its segments tile the output
  timeline in array order: block \<open>i\<close> starts at the sum of the durations of the segments
  before it, each block starts where the previous one ends, the first starts at 0 and the
  last ends at the total duration, which is the sum of \<open>sourceEnd - sourceStart\<close> over the
  segments; with no segment of negative duration no block reaches into a later one.  As
  this holds for every segment list, it holds for the configuration after a split, a
  delete and an edge adjustment, whatever the segment library computes.
\<close>

theorem output_ranges_partition:
  "outputPartition (segments cfg) (segmentBlocks tz (Some cfg))
   \<and> timeMap_totalDuration (segments cfg) = (\<Sum>s \<leftarrow> segments cfg. sourceEnd s - sourceStart s)
   \<and> (list_all (\<lambda>s. sourceStart s \<le> sourceEnd s) (segments cfg)
        \<longrightarrow> nonOverlapping (segmentBlocks tz (Some cfg)))
   \<and> partitionHolds tz (splitSegment lib i t w)
   \<and> partitionHolds tz (deleteSegment lib i w)
   \<and> partitionHolds tz (adjustSegmentEdge lib i e t w)"
proof -
  have "timeMap_totalDuration (segments cfg) = (\<Sum>s \<leftarrow> segments cfg. sourceEnd s - sourceStart s)"
    by (simp add: timeMap_totalDuration_def segDuration_def cong: map_cong)
  then show ?thesis
    by (simp add: segmentBlocks_def outputPartition_blocksFrom nonOverlapping_blocksFrom
        partitionHolds_any)
qed

theorem output_ranges_partition_witness:
  "list_all (\<lambda>s. sourceStart s \<le> sourceEnd s) (segments (sampleConfig twoSegs []))
   \<and> nonOverlapping (segmentBlocks 50 (Some (sampleConfig twoSegs [])))
   \<and> outputPartition twoSegs (segmentBlocks 50 (Some (sampleConfig twoSegs [])))
   \<and> map outputStart (segmentBlocks 50 (Some (sampleConfig twoSegs []))) = [0, 10]
   \<and> map outputEnd (segmentBlocks 50 (Some (sampleConfig twoSegs []))) = [10, 18]
   \<and> timeMap_totalDuration twoSegs = 18
   \<and> map_option (\<lambda>c. map seg_id (segments c))
        (editConfig (store (splitSegment specLib ''a'' 4 (loadedWorld (sampleConfig twoSegs [])))))
       = Some [''a'', ''a_b'', ''b'']
   \<and> partitionHolds 50 (splitSegment specLib ''a'' 4 (loadedWorld (sampleConfig twoSegs [])))"
  using output_ranges_partition[of "sampleConfig twoSegs []" 50 specLib "''a''" 4
      "loadedWorld (sampleConfig twoSegs [])" edge_start]
  by (simp add: twoSegs_def sampleConfig_def mkSeg_def segmentBlocks_def Let_def
      timeMap_totalDuration_def segDuration_def splitSegment_def loadedWorld_def
      initialState_def specLib_def spec_splitSeg_def syncCutsFromSegments_def pushHistory_def)

section \<open>History of the session store\<close>


lemma sliceLast_length: "length (sliceLast n xs) = min n (length xs)"
  by (simp add: sliceLast_def)

lemma sliceLast_snoc_twice: "sliceLast n (sliceLast n xs @ [x]) = sliceLast n (xs @ [x])"
proof (cases "length xs \<le> n")
  case True
  then show ?thesis by (simp add: sliceLast_def)
next
  case False
  then have "Suc (length xs) - (length xs - n + n) + (length xs - n) = Suc (length xs) - n"
    by arith
  then show ?thesis by (simp add: sliceLast_def)
qed

lemma sliceLast_append_short:
  "length ps \<le> n \<Longrightarrow> sliceLast n (H @ ps) = sliceLast (n - length ps) H @ ps"
  by (auto simp: sliceLast_def)

lemma pushHistory_Some:
  "editConfig st = Some c \<Longrightarrow>
     pushHistory st = (sliceLast MAX_HISTORY (editHistory st @ [c]), [])"
  by (simp add: pushHistory_def)

lemma applyEdit_None: "editConfig (store w) = None \<Longrightarrow> applyEdit lib a w = w"
  by (cases a)
     (simp_all add: updateEditConfig_def splitSegment_def deleteSegment_def adjustSegmentEdge_def
        addZoom_def updateZoom_def deleteZoom_def updateCaptionText_def toggleWordHighlight_def
        hideWord_def updateCaptionStyle_def addAnnotation_def updateAnnotation_def
        deleteAnnotation_def)

lemma applyEdit_Some:
  assumes "editConfig (store w) = Some c"
  shows "editConfig (store (applyEdit lib a w)) \<noteq> None
       \<and> editHistory (store (applyEdit lib a w)) = sliceLast MAX_HISTORY (editHistory (store w) @ [c])
       \<and> editFuture (store (applyEdit lib a w)) = []
       \<and> isDirty (store (applyEdit lib a w))
       \<and> debounceTimer (applyEdit lib a w) = debounceTimer w
       \<and> debounceSnapshot (applyEdit lib a w) = debounceSnapshot w
       \<and> now (applyEdit lib a w) = now w"
  using assms
  by (cases a)
     (simp_all add: updateEditConfig_def splitSegment_def deleteSegment_def adjustSegmentEdge_def
        addZoom_def updateZoom_def deleteZoom_def updateCaptionText_def toggleWordHighlight_def
        hideWord_def updateCaptionStyle_def addAnnotation_def updateAnnotation_def
        deleteAnnotation_def pushHistory_Some Let_def)


lemma undo_pop:
  assumes "debounceSnapshot w = None" "editConfig (store w) = Some c"
    "editHistory (store w) = H @ [p]"
  shows "editConfig (store (undo w)) = Some p \<and> editHistory (store (undo w)) = H
       \<and> editFuture (store (undo w)) = c # editFuture (store w)
       \<and> debounceSnapshot (undo w) = None \<and> debounceTimer (undo w) = None"
  using assms by (simp add: undo_def Let_def)

lemma undo_empty:
  assumes "debounceSnapshot w = None" "editHistory (store w) = []"
  shows "store (undo w) = store w"
  using assms by (simp add: undo_def Let_def split: option.split)

lemma hd_tl_snoc2:
  "hd (ps @ [p]) = hd (ps @ [p, c]) \<and> tl (ps @ [p]) @ [c] = tl (ps @ [p, c])"
  by (cases ps) simp_all

lemma undo_iter:
  assumes "debounceSnapshot w = None" "editConfig (store w) = Some c"
    "editHistory (store w) = H @ ps"
  shows "editConfig (store ((undo ^^ length ps) w)) = Some (hd (ps @ [c]))
       \<and> editHistory (store ((undo ^^ length ps) w)) = H
       \<and> editFuture (store ((undo ^^ length ps) w)) = tl (ps @ [c]) @ editFuture (store w)
       \<and> debounceSnapshot ((undo ^^ length ps) w) = None"
  using assms
proof (induction ps arbitrary: w c rule: rev_induct)
  case Nil
  then show ?case by simp
next
  case (snoc p ps)
  from snoc.prems have h: "editHistory (store w) = (H @ ps) @ [p]" by simp
  note u = undo_pop[OF snoc.prems(1) snoc.prems(2) h]
  have "editHistory (store (undo w)) = H @ ps" using u by simp
  from snoc.IH[OF _ _ this, of p] u
  show ?case by (simp add: funpow_swap1 hd_tl_snoc2)
qed

lemma undo_iter_timer: "debounceTimer w = None \<Longrightarrow> debounceTimer ((undo ^^ n) w) = None"
  by (induction n) (simp_all add: undo_def Let_def split: option.split)

lemma redo_pop:
  assumes "debounceTimer w = None" "editConfig (store w) = Some c"
    "editFuture (store w) = f # F"
  shows "editConfig (store (redo w)) = Some f
       \<and> editHistory (store (redo w)) = editHistory (store w) @ [c]
       \<and> editFuture (store (redo w)) = F
       \<and> debounceTimer (redo w) = None \<and> debounceSnapshot (redo w) = debounceSnapshot w"
  using assms by (simp add: redo_def Let_def)

lemma redo_iter:
  assumes "debounceTimer w = None" "editConfig (store w) = Some c"
    "editFuture (store w) = fs @ F"
  shows "editConfig (store ((redo ^^ length fs) w)) = Some (last (c # fs))
       \<and> editHistory (store ((redo ^^ length fs) w)) = editHistory (store w) @ butlast (c # fs)
       \<and> editFuture (store ((redo ^^ length fs) w)) = F"
  using assms
proof (induction fs arbitrary: w c)
  case Nil
  then show ?case by simp
next
  case (Cons f fs)
  from Cons.prems have fu: "editFuture (store w) = f # (fs @ F)" by simp
  note r = redo_pop[OF Cons.prems(1) Cons.prems(2) fu]
  from Cons.IH[of "redo w" f] r
  show ?case by (simp add: funpow_swap1)
qed

lemma applyEdits_snoc: "applyEdits lib (as @ [a]) w = applyEdit lib a (applyEdits lib as w)"
  by (simp add: applyEdits_def)

lemma applyEdits_Cons: "applyEdits lib (a # as) w = applyEdits lib as (applyEdit lib a w)"
  by (simp add: applyEdits_def)

lemma applyEdits_trace:
  assumes "editConfig (store w) = Some c"
  shows "\<exists>ps cN. length ps = length as
       \<and> editConfig (store (applyEdits lib as w)) = Some cN
       \<and> editHistory (store (applyEdits lib as w))
           = (if as = [] then editHistory (store w)
              else sliceLast MAX_HISTORY (editHistory (store w) @ ps))
       \<and> hd (ps @ [cN]) = c
       \<and> editFuture (store (applyEdits lib as w)) = (if as = [] then editFuture (store w) else [])
       \<and> debounceTimer (applyEdits lib as w) = debounceTimer w
       \<and> debounceSnapshot (applyEdits lib as w) = debounceSnapshot w"
proof (induction as rule: rev_induct)
  case Nil
  show ?case
    by (rule exI[of _ "[]"], rule exI[of _ c]) (simp add: applyEdits_def assms)
next
  case (snoc a as)
  then obtain ps cN where ih: "length ps = length as"
    "editConfig (store (applyEdits lib as w)) = Some cN"
    "editHistory (store (applyEdits lib as w))
       = (if as = [] then editHistory (store w)
          else sliceLast MAX_HISTORY (editHistory (store w) @ ps))"
    "hd (ps @ [cN]) = c"
    "debounceTimer (applyEdits lib as w) = debounceTimer w"
    "debounceSnapshot (applyEdits lib as w) = debounceSnapshot w"
    by blast
  note e = applyEdit_Some[OF ih(2), of lib a]
  from e obtain cN' where cn: "editConfig (store (applyEdit lib a (applyEdits lib as w))) = Some cN'"
    by auto
  have hist: "editHistory (store (applyEdit lib a (applyEdits lib as w)))
      = sliceLast MAX_HISTORY (editHistory (store w) @ ps @ [cN])"
  proof (cases "as = []")
    case True
    with ih(1) have "ps = []" by simp
    with e ih(3) True show ?thesis by simp
  next
    case False
    with e ih(3) show ?thesis
      using sliceLast_snoc_twice[of MAX_HISTORY "editHistory (store w) @ ps" cN] by simp
  qed
  have hd: "hd ((ps @ [cN]) @ [cN']) = c" using ih(4) by (cases ps) simp_all
  show ?case
    apply (rule exI[of _ "ps @ [cN]"], rule exI[of _ cN'])
    using cn hist hd ih(1) ih(5) ih(6) e by (simp add: applyEdits_snoc)
qed

text \<open>
  C4, as amended.  From a loaded configuration \<open>C0\<close> with no gesture waiting for its commit,
  after \<open>N\<close> discrete edits with \<open>N\<close> at most the history bound of 50, \<open>N\<close> undos bring the
  current configuration back to \<open>C0\<close> exactly, and \<open>N\<close> further redos bring it back to the
  configuration the edits ended in, together with the history stacks they ended in.
\<close>

theorem history_integrity:
  assumes c0: "editConfig (store w0) = Some C0" and idle: "debounceIdle w0"
    and bound: "length edits \<le> MAX_HISTORY"
  shows "editConfig (store ((undo ^^ length edits) (applyEdits lib edits w0))) = Some C0
       \<and> editConfig (store ((redo ^^ length edits) ((undo ^^ length edits) (applyEdits lib edits w0))))
           = editConfig (store (applyEdits lib edits w0))
       \<and> editHistory (store ((redo ^^ length edits) ((undo ^^ length edits) (applyEdits lib edits w0))))
           = editHistory (store (applyEdits lib edits w0))
       \<and> editFuture (store ((redo ^^ length edits) ((undo ^^ length edits) (applyEdits lib edits w0))))
           = editFuture (store (applyEdits lib edits w0))"
proof (cases "edits = []")
  case True
  then show ?thesis using c0 by (simp add: applyEdits_def)
next
  case False
  let ?w1 = "applyEdits lib edits w0"
  let ?n = "length edits"
  let ?w2 = "(undo ^^ ?n) ?w1"
  from applyEdits_trace[OF c0, of edits lib] False
  obtain ps cN where tr: "length ps = ?n"
    "editConfig (store ?w1) = Some cN"
    "editHistory (store ?w1) = sliceLast MAX_HISTORY (editHistory (store w0) @ ps)"
    "hd (ps @ [cN]) = C0"
    "editFuture (store ?w1) = []"
    "debounceTimer ?w1 = debounceTimer w0"
    "debounceSnapshot ?w1 = debounceSnapshot w0"
    by auto
  let ?H = "sliceLast (MAX_HISTORY - length ps) (editHistory (store w0))"
  have hist: "editHistory (store ?w1) = ?H @ ps"
    using tr(1) tr(3) bound sliceLast_append_short[of ps MAX_HISTORY] by simp
  have snap: "debounceSnapshot ?w1 = None" and timer: "debounceTimer ?w1 = None"
    using idle tr(6) tr(7) by (simp_all add: debounceIdle_def)
  note u = undo_iter[OF snap tr(2) hist]
  have u1: "editConfig (store ?w2) = Some C0"
    and u2: "editHistory (store ?w2) = ?H"
    and u3: "editFuture (store ?w2) = tl (ps @ [cN]) @ []"
    using u tr(1) tr(4) tr(5) by simp_all
  have t2: "debounceTimer ?w2 = None" using timer by (rule undo_iter_timer)
  have len: "length (tl (ps @ [cN])) = ?n" using tr(1) by simp
  have whole: "C0 # tl (ps @ [cN]) = ps @ [cN]" using tr(4) by (cases ps) auto
  note r = redo_iter[OF t2 u1 u3]
  have "editConfig (store ((redo ^^ ?n) ?w2)) = Some cN"
    and "editHistory (store ((redo ^^ ?n) ?w2)) = ?H @ ps"
    and "editFuture (store ((redo ^^ ?n) ?w2)) = []"
    using r len whole u2 by simp_all
  then show ?thesis using u1 tr(2) hist tr(5) by simp
qed

theorem history_integrity_witness:
  "editConfig (store (loadedWorld sampleCfg)) = Some sampleCfg
   \<and> debounceIdle (loadedWorld sampleCfg)
   \<and> length twoEdits \<le> MAX_HISTORY
   \<and> editConfig (store (applyEdits specLib twoEdits (loadedWorld sampleCfg))) \<noteq> Some sampleCfg
   \<and> editConfig (store ((undo ^^ 2) (applyEdits specLib twoEdits (loadedWorld sampleCfg))))
       = Some sampleCfg
   \<and> editConfig (store ((redo ^^ 2) ((undo ^^ 2) (applyEdits specLib twoEdits (loadedWorld sampleCfg)))))
       = editConfig (store (applyEdits specLib twoEdits (loadedWorld sampleCfg)))"
proof -
  have h1: "editConfig (store (loadedWorld sampleCfg)) = Some sampleCfg"
    by (simp add: loadedWorld_def)
  have h2: "debounceIdle (loadedWorld sampleCfg)"
    by (simp add: loadedWorld_def debounceIdle_def)
  have h3: "length twoEdits \<le> MAX_HISTORY"
    by (simp add: twoEdits_def MAX_HISTORY_def)
  have n: "length twoEdits = 2" by (simp add: twoEdits_def)
  have ne: "editConfig (store (applyEdits specLib twoEdits (loadedWorld sampleCfg))) \<noteq> Some sampleCfg"
    by (simp add: twoEdits_def loadedWorld_def initialState_def applyEdits_def
        updateEditConfig_def deleteSegment_def Let_def pushHistory_def mergeEditConfig_def
        orElse_def ratioChange_def sampleCfg_def sampleConfig_def syncCutsFromSegments_def)
  from history_integrity[OF h1 h2 h3, of specLib] h1 h2 h3 ne show ?thesis
    unfolding n by blast
qed


lemma ratioEdit_first:
  "editConfig (store (applyEdit specLib ratioEdit (loadedWorld sampleCfg)))
     = Some (sampleCfg\<lparr>outputRatio := Ratio_1_1\<rparr>)
   \<and> editHistory (store (applyEdit specLib ratioEdit (loadedWorld sampleCfg))) = [sampleCfg]
   \<and> debounceSnapshot (applyEdit specLib ratioEdit (loadedWorld sampleCfg)) = None"
  by (simp add: ratioEdit_def loadedWorld_def initialState_def updateEditConfig_def Let_def
      pushHistory_def mergeEditConfig_def orElse_def ratioChange_def sliceLast_def MAX_HISTORY_def)

text \<open>
  C4 as stated fails beyond the history bound: after 51 edits the oldest snapshot, the
  starting configuration, has been evicted, and 51 undos end at the configuration after
  the first edit.
\<close>

theorem history_integrity_counterexample:
  "editConfig (store ((undo ^^ 51) (applyEdits specLib (replicate 51 ratioEdit) (loadedWorld sampleCfg))))
     \<noteq> Some sampleCfg"
proof -
  let ?w1 = "applyEdit specLib ratioEdit (loadedWorld sampleCfg)"
  let ?c1 = "sampleCfg\<lparr>outputRatio := Ratio_1_1\<rparr>"
  let ?w = "applyEdits specLib (replicate 50 ratioEdit) ?w1"
  have split: "applyEdits specLib (replicate 51 ratioEdit) (loadedWorld sampleCfg) = ?w"
  proof -
    have "replicate 51 ratioEdit = ratioEdit # replicate 50 ratioEdit"
      by (simp add: numeral_eq_Suc)
    then show ?thesis by (simp only: applyEdits_Cons)
  qed
  have c1: "editConfig (store ?w1) = Some ?c1" using ratioEdit_first by simp
  from applyEdits_trace[OF c1, of "replicate 50 ratioEdit" specLib]
  obtain ps cN where tr: "length ps = 50" "editConfig (store ?w) = Some cN"
    "editHistory (store ?w) = sliceLast MAX_HISTORY (editHistory (store ?w1) @ ps)"
    "hd (ps @ [cN]) = ?c1" "debounceSnapshot ?w = debounceSnapshot ?w1"
    by auto
  have hist: "editHistory (store ?w) = [] @ ps"
    using tr(1) tr(3) ratioEdit_first by (simp add: sliceLast_def MAX_HISTORY_def)
  have snap: "debounceSnapshot ?w = None" using tr(5) ratioEdit_first by simp
  note u = undo_iter[OF snap tr(2) hist]
  let ?w50 = "(undo ^^ 50) ?w"
  have a: "editConfig (store ?w50) = Some ?c1" "editHistory (store ?w50) = []"
    "debounceSnapshot ?w50 = None"
    using u tr(1) tr(4) by simp_all
  have "(undo ^^ 51) ?w = undo ?w50" by (simp add: numeral_eq_Suc)
  then have "editConfig (store ((undo ^^ 51) ?w)) = Some ?c1"
    using undo_empty[OF a(3) a(2)] a(1) by simp
  moreover have "?c1 \<noteq> sampleCfg"
  proof
    assume "?c1 = sampleCfg"
    then have "outputRatio ?c1 = outputRatio sampleCfg" by simp
    then show False by (simp add: sampleCfg_def sampleConfig_def)
  qed
  ultimately show ?thesis unfolding split by simp
qed

lemma nonempty_length: "xs \<noteq> [] \<Longrightarrow> Suc (length xs - Suc 0 + n) = length xs + n"
  by (cases xs) simp_all

lemma step_history_bound:
  assumes "length (editHistory (store w)) + length (editFuture (store w)) \<le> MAX_HISTORY"
  shows "length (editHistory (store (step lib ev w))) + length (editFuture (store (step lib ev w)))
           \<le> MAX_HISTORY"
proof (cases ev)
  case (Edit a)
  show ?thesis
  proof (cases "editConfig (store w)")
    case None
    then show ?thesis using assms Edit by (simp add: applyEdit_None)
  next
    case (Some c)
    from applyEdit_Some[OF Some, of lib a] show ?thesis
      using Edit by (simp add: sliceLast_length)
  qed
next
  case (Debounced changes)
  then show ?thesis using assms
    by (simp add: updateEditConfigDebounced_def Let_def split: option.split)
next
  case Undo
  show ?thesis
  proof (cases "debounceSnapshot w")
    case None
    then show ?thesis using assms Undo
      by (auto simp: undo_def Let_def nonempty_length split: option.split)
  next
    case (Some s)
    then show ?thesis using Undo
      by (auto simp: undo_def Let_def sliceLast_length MAX_HISTORY_def split: option.split)
  qed
next
  case Redo
  then show ?thesis using assms
    by (auto simp: redo_def Let_def split: option.split list.split)
next
  case (Initialize ps)
  then show ?thesis by (simp add: initialize_def)
next
  case ToggleProxy
  then show ?thesis using assms by (simp add: toggleProxy_def)
next
  case (SetPlaybackState playing t dur)
  then show ?thesis using assms by (simp add: setPlaybackState_def)
next
  case (SelectElement el)
  then show ?thesis using assms by (simp add: selectElement_def)
next
  case (SetTimelineZoom z)
  then show ?thesis using assms by (simp add: setTimelineZoom_def)
next
  case (SetTimelineScroll x)
  then show ?thesis using assms by (simp add: setTimelineScroll_def)
next
  case MarkSaved
  then show ?thesis using assms by (simp add: markSaved_def)
next
  case MarkSaving
  then show ?thesis using assms by (simp add: markSaving_def)
next
  case (Advance t)
  then show ?thesis using assms
    by (auto simp: advance_def debounceCallback_def Let_def sliceLast_length
        split: option.split)
qed

lemma run_history_bound:
  assumes "length (editHistory (store w)) + length (editFuture (store w)) \<le> MAX_HISTORY"
  shows "length (editHistory (store (run lib events w)))
           + length (editFuture (store (run lib events w))) \<le> MAX_HISTORY"
  using assms
proof (induction events arbitrary: w)
  case Nil
  then show ?case by (simp add: run_def)
next
  case (Cons ev events)
  from Cons.IH[OF step_history_bound[OF Cons.prems, of lib ev]]
  show ?case by (simp add: run_def)
qed


lemma sliceLast_room: "length H < n \<Longrightarrow> sliceLast n (H @ [c]) = H @ [c]"
  by (simp add: sliceLast_def)

lemma sliceLast_evict:
  "n \<le> length H \<Longrightarrow> 0 < n \<Longrightarrow> sliceLast n (H @ [c]) = drop (Suc (length H) - n) H @ [c]"
  by (simp add: sliceLast_def)

text \<open>
  C6.  Every immediate edit on a loaded configuration pushes that configuration, as it was
  before the mutation, onto the undo stack and clears the redo stack.  The push keeps the
  last 50 entries: with room left the stack grows by the snapshot, and a full stack drops
  its oldest entries first.  In every state reached from the initial store by any sequence
  of actions and timeouts the undo stack holds at most 50 entries.
\<close>

theorem undo_stack_bounded:
  fixes w :: "('c, 'p) World" and events :: "('c, 'p) Event list"
  shows "MAX_HISTORY = 50
   \<and> (editConfig (store w) = Some c \<longrightarrow>
        editHistory (store (applyEdit lib a w)) = sliceLast MAX_HISTORY (editHistory (store w) @ [c])
      \<and> editFuture (store (applyEdit lib a w)) = [])
   \<and> (length H < MAX_HISTORY \<longrightarrow> sliceLast MAX_HISTORY (H @ [c]) = H @ [c])
   \<and> (MAX_HISTORY \<le> length H \<longrightarrow>
        sliceLast MAX_HISTORY (H @ [c]) = drop (Suc (length H) - MAX_HISTORY) H @ [c])
   \<and> length (sliceLast MAX_HISTORY (H @ [c])) \<le> MAX_HISTORY
   \<and> length (editHistory (store (run lib events (initialWorld t0)))) \<le> MAX_HISTORY"
proof -
  have "length (editHistory (store (initialWorld t0 :: ('c, 'p) World)))
          + length (editFuture (store (initialWorld t0 :: ('c, 'p) World))) \<le> MAX_HISTORY"
    by (simp add: initialWorld_def initialState_def)
  from run_history_bound[OF this, of lib events]
  have reach: "length (editHistory (store (run lib events (initialWorld t0))))
          \<le> MAX_HISTORY" by simp
  have evict: "MAX_HISTORY \<le> length H \<longrightarrow>
        sliceLast MAX_HISTORY (H @ [c]) = drop (Suc (length H) - MAX_HISTORY) H @ [c]"
    using sliceLast_evict[of MAX_HISTORY H c] by (simp add: MAX_HISTORY_def)
  show ?thesis
    using reach evict applyEdit_Some[of w c lib a]
    by (simp add: sliceLast_room sliceLast_length) (simp add: MAX_HISTORY_def)
qed

theorem undo_stack_bounded_witness:
  "editConfig (store fullHistoryWorld) = Some (sampleCfg\<lparr>outputRatio := Ratio_4_5\<rparr>)
   \<and> MAX_HISTORY \<le> length (replicate 50 sampleCfg)
   \<and> editHistory (store (applyEdit specLib ratioEdit fullHistoryWorld))
       = replicate 49 sampleCfg @ [sampleCfg\<lparr>outputRatio := Ratio_4_5\<rparr>]
   \<and> editFuture (store (applyEdit specLib ratioEdit fullHistoryWorld)) = []
   \<and> length ([] :: EditConfig list) < MAX_HISTORY
   \<and> sliceLast MAX_HISTORY ([] @ [sampleCfg]) = [sampleCfg]
   \<and> length (editHistory (store (run specLib [Edit ratioEdit, Undo, Redo]
        (initialWorld 0 :: (unit, unit) World)))) \<le> MAX_HISTORY"
proof -
  have h1: "editConfig (store fullHistoryWorld) = Some (sampleCfg\<lparr>outputRatio := Ratio_4_5\<rparr>)"
    by (simp add: fullHistoryWorld_def loadedWorld_def)
  have h2: "editHistory (store fullHistoryWorld) = replicate 50 sampleCfg"
    by (simp add: fullHistoryWorld_def loadedWorld_def)
  have h3: "MAX_HISTORY \<le> length (replicate 50 sampleCfg)"
    by (simp add: MAX_HISTORY_def)
  have h4: "length ([] :: EditConfig list) < MAX_HISTORY" by (simp add: MAX_HISTORY_def)
  have d: "drop (Suc (length (replicate 50 sampleCfg)) - MAX_HISTORY) (replicate 50 sampleCfg)
             = replicate 49 sampleCfg"
    by (simp add: MAX_HISTORY_def)
  note t1 = undo_stack_bounded[of fullHistoryWorld "sampleCfg\<lparr>outputRatio := Ratio_4_5\<rparr>"
      specLib ratioEdit "replicate 50 sampleCfg" "[Edit ratioEdit, Undo, Redo]" 0]
  note t2 = undo_stack_bounded[of fullHistoryWorld sampleCfg
      specLib ratioEdit "[]" "[Edit ratioEdit, Undo, Redo]" 0]
  from t1 h1 h2 h3 d have a:
    "editHistory (store (applyEdit specLib ratioEdit fullHistoryWorld))
       = replicate 49 sampleCfg @ [sampleCfg\<lparr>outputRatio := Ratio_4_5\<rparr>]"
    "editFuture (store (applyEdit specLib ratioEdit fullHistoryWorld)) = []"
    "length (editHistory (store (run specLib [Edit ratioEdit, Undo, Redo]
        (initialWorld 0 :: (unit, unit) World)))) \<le> MAX_HISTORY"
    by auto
  from t2 h4 have b: "sliceLast MAX_HISTORY ([] @ [sampleCfg]) = [sampleCfg]" by simp
  show ?thesis using h1 h3 h4 a b by simp
qed

section \<open>Debounced gestures\<close>


lemma debounced_call:
  assumes "editConfig (store w) = Some c"
  shows "editConfig (store (updateEditConfigDebounced lib changes w))
           = Some (appliedConfig lib changes (store w) c)
       \<and> editHistory (store (updateEditConfigDebounced lib changes w)) = editHistory (store w)
       \<and> editFuture (store (updateEditConfigDebounced lib changes w)) = editFuture (store w)
       \<and> debounceSnapshot (updateEditConfigDebounced lib changes w)
           = Some (case debounceSnapshot w of None \<Rightarrow> c | Some s \<Rightarrow> s)
       \<and> debounceTimer (updateEditConfigDebounced lib changes w) = Some (now w + DEBOUNCE_MS)
       \<and> now (updateEditConfigDebounced lib changes w) = now w"
  using assms
  by (simp add: updateEditConfigDebounced_def appliedConfig_def Let_def split: option.split)

lemma advance_early:
  assumes "debounceTimer w = Some due" "t < due"
  shows "advance t w = w\<lparr>now := max (now w) t\<rparr>"
  using assms by (simp add: advance_def)

lemma advance_idle:
  assumes "debounceTimer w = None"
  shows "advance t w = w\<lparr>now := max (now w) t\<rparr>"
  using assms by (simp add: advance_def)

lemma advance_due:
  assumes "debounceTimer w = Some due" "due \<le> t" "debounceSnapshot w = Some s"
    "editConfig (store w) = Some c"
  shows "editHistory (store (advance t w)) = sliceLast MAX_HISTORY (editHistory (store w) @ [s])
       \<and> editFuture (store (advance t w)) = []
       \<and> editConfig (store (advance t w)) = Some c
       \<and> debounceIdle (advance t w)"
  using assms by (simp add: advance_def debounceCallback_def debounceIdle_def Let_def)

lemma gesture_pending:
  assumes "editConfig (store w) = Some c" "debounceSnapshot w = Some s"
    "debounceTimer w = Some (t + DEBOUNCE_MS)" "now w \<le> t" "rapid t rest"
  shows "debounceSnapshot (gesture lib rest w) = Some s
       \<and> debounceTimer (gesture lib rest w) = Some (lastCallTime t rest + DEBOUNCE_MS)
       \<and> editHistory (store (gesture lib rest w)) = editHistory (store w)
       \<and> editFuture (store (gesture lib rest w)) = editFuture (store w)
       \<and> editConfig (store (gesture lib rest w)) \<noteq> None"
  using assms
proof (induction rest arbitrary: w c t)
  case Nil
  then show ?case by (simp add: lastCallTime_def)
next
  case (Cons call rest)
  obtain t' changes where call: "call = (t', changes)" by (cases call)
  from Cons.prems(5) call have tt: "t \<le> t'" "t' < t + DEBOUNCE_MS" "rapid t' rest" by simp_all
  let ?wa = "advance t' w"
  have wa: "?wa = w\<lparr>now := max (now w) t'\<rparr>"
    using advance_early[OF Cons.prems(3) tt(2)] .
  have nowa: "now ?wa = t'" using wa Cons.prems(4) tt(1) by simp
  have ca: "editConfig (store ?wa) = Some c" using wa Cons.prems(1) by simp
  let ?wb = "updateEditConfigDebounced lib changes ?wa"
  note d = debounced_call[OF ca, of lib changes]
  have b1: "editConfig (store ?wb) = Some (appliedConfig lib changes (store ?wa) c)"
    and b2: "debounceSnapshot ?wb = Some s"
    and b3: "debounceTimer ?wb = Some (t' + DEBOUNCE_MS)"
    and b4: "now ?wb \<le> t'"
    and b5: "editHistory (store ?wb) = editHistory (store w)"
    and b6: "editFuture (store ?wb) = editFuture (store w)"
    using d wa nowa Cons.prems(2) by simp_all
  from Cons.IH[OF b1 b2 b3 b4 tt(3)] b5 b6 call
  show ?case by (simp add: lastCallTime_def)
qed

text \<open>
  C3.  A gesture starts on a loaded configuration \<open>C0\<close> with nothing pending; its calls
  follow each other within the quiet period of 300 ms.  While the gesture lasts the undo
  stack is untouched.  Once the clock has reached the last call's time plus the quiet
  period with no further call, the stack has received one entry, \<open>C0\<close> (the push keeps the
  last 50 entries, so with room left the stack is the old one followed by \<open>C0\<close>), and
  nothing is pending any more.  Each call replaces the current configuration by the merged
  one at once.
\<close>

theorem gesture_coalescing:
  assumes c0: "editConfig (store w0) = Some C0" and idle: "debounceIdle w0"
    and t1: "now w0 \<le> t1" and rap: "rapid t1 rest"
    and quiet: "lastCallTime t1 rest + DEBOUNCE_MS \<le> T"
  shows "editHistory (store (gesture lib ((t1, ch1) # rest) w0)) = editHistory (store w0)
       \<and> editHistory (store (advance T (gesture lib ((t1, ch1) # rest) w0)))
           = sliceLast MAX_HISTORY (editHistory (store w0) @ [C0])
       \<and> (length (editHistory (store w0)) < MAX_HISTORY \<longrightarrow>
            editHistory (store (advance T (gesture lib ((t1, ch1) # rest) w0)))
              = editHistory (store w0) @ [C0])
       \<and> editConfig (store (advance T (gesture lib ((t1, ch1) # rest) w0)))
           = editConfig (store (gesture lib ((t1, ch1) # rest) w0))
       \<and> debounceIdle (advance T (gesture lib ((t1, ch1) # rest) w0))
       \<and> (editConfig (store w) = Some c \<longrightarrow>
            editConfig (store (updateEditConfigDebounced lib ch w))
              = Some (appliedConfig lib ch (store w) c))"
proof -
  let ?wa = "advance t1 w0"
  have wa: "?wa = w0\<lparr>now := max (now w0) t1\<rparr>"
    using idle by (simp add: advance_idle debounceIdle_def)
  have ca: "editConfig (store ?wa) = Some C0" using wa c0 by simp
  let ?wb = "updateEditConfigDebounced lib ch1 ?wa"
  note d = debounced_call[OF ca, of lib ch1]
  have b1: "editConfig (store ?wb) = Some (appliedConfig lib ch1 (store ?wa) C0)"
    and b2: "debounceSnapshot ?wb = Some C0"
    and b3: "debounceTimer ?wb = Some (t1 + DEBOUNCE_MS)"
    and b4: "now ?wb \<le> t1"
    and b5: "editHistory (store ?wb) = editHistory (store w0)"
    using d wa t1 idle by (simp_all add: debounceIdle_def)
  let ?wg = "gesture lib ((t1, ch1) # rest) w0"
  have wg: "?wg = gesture lib rest ?wb" by simp
  note g = gesture_pending[OF b1 b2 b3 b4 rap, of lib]
  from g obtain cN where cN: "editConfig (store ?wg) = Some cN" unfolding wg by auto
  have g1: "debounceSnapshot ?wg = Some C0"
    and g2: "debounceTimer ?wg = Some (lastCallTime t1 rest + DEBOUNCE_MS)"
    and g3: "editHistory (store ?wg) = editHistory (store w0)"
    using g b5 unfolding wg by simp_all
  note a = advance_due[OF g2 quiet g1 cN]
  have room: "length (editHistory (store w0)) < MAX_HISTORY \<longrightarrow>
      sliceLast MAX_HISTORY (editHistory (store w0) @ [C0]) = editHistory (store w0) @ [C0]"
    by (simp add: sliceLast_room)
  show ?thesis
    using g3 a cN room debounced_call[of w c lib ch] by simp
qed

lemma rapid_burst: "t0 \<le> t \<Longrightarrow> t < t0 + DEBOUNCE_MS \<Longrightarrow> rapid t0 (burst t n ch)"
  by (induction n arbitrary: t0 t) (simp_all add: DEBOUNCE_MS_def)

lemma lastCallTime_burst: "lastCallTime t0 (burst (t0 + 10) n ch) = t0 + 10 * n"
proof (induction n arbitrary: t0)
  case 0
  then show ?case by (simp add: lastCallTime_def)
next
  case (Suc n)
  have "lastCallTime t0 (burst (t0 + 10) (Suc n) ch)
          = lastCallTime (t0 + 10) (burst (t0 + 10 + 10) n ch)"
    by (simp add: lastCallTime_def)
  then show ?case using Suc[of "t0 + 10"] by simp
qed

theorem gesture_coalescing_witness:
  "editConfig (store (loadedWorld sampleCfg)) = Some sampleCfg
   \<and> debounceIdle (loadedWorld sampleCfg)
   \<and> now (loadedWorld sampleCfg) \<le> 1000
   \<and> length ((1000, ratioChange Ratio_1_1) # burst 1010 19 (ratioChange Ratio_4_5)) = 20
   \<and> rapid 1000 (burst 1010 19 (ratioChange Ratio_4_5))
   \<and> lastCallTime 1000 (burst 1010 19 (ratioChange Ratio_4_5)) + DEBOUNCE_MS \<le> 1490
   \<and> length (editHistory (store (loadedWorld sampleCfg))) < MAX_HISTORY
   \<and> editHistory (store (advance 1490 (gesture specLib
         ((1000, ratioChange Ratio_1_1) # burst 1010 19 (ratioChange Ratio_4_5))
         (loadedWorld sampleCfg)))) = [sampleCfg]
   \<and> editConfig (store (updateEditConfigDebounced specLib (ratioChange Ratio_1_1)
         (loadedWorld sampleCfg))) = Some (sampleCfg\<lparr>outputRatio := Ratio_1_1\<rparr>)"
proof -
  have h1: "editConfig (store (loadedWorld sampleCfg)) = Some sampleCfg"
    by (simp add: loadedWorld_def)
  have h2: "debounceIdle (loadedWorld sampleCfg)"
    by (simp add: loadedWorld_def debounceIdle_def)
  have h3: "now (loadedWorld sampleCfg) \<le> 1000" by (simp add: loadedWorld_def)
  have h4: "rapid 1000 (burst 1010 19 (ratioChange Ratio_4_5))"
    by (rule rapid_burst) (simp_all add: DEBOUNCE_MS_def)
  have l: "lastCallTime 1000 (burst 1010 19 (ratioChange Ratio_4_5)) = 1190"
    using lastCallTime_burst[of 1000 19] by simp
  have h5: "lastCallTime 1000 (burst 1010 19 (ratioChange Ratio_4_5)) + DEBOUNCE_MS \<le> 1490"
    unfolding l by (simp add: DEBOUNCE_MS_def)
  have h6: "length (editHistory (store (loadedWorld sampleCfg))) < MAX_HISTORY"
    by (simp add: loadedWorld_def initialState_def MAX_HISTORY_def)
  have h7: "editHistory (store (loadedWorld sampleCfg)) = []"
    by (simp add: loadedWorld_def initialState_def)
  have n: "length ((1000, ratioChange Ratio_1_1) # burst 1010 19 (ratioChange Ratio_4_5)) = 20"
  proof -
    have "length (burst t n ch) = n" for t n ch by (induction n arbitrary: t) simp_all
    then show ?thesis by simp
  qed
  have ap: "appliedConfig specLib (ratioChange Ratio_1_1) (store (loadedWorld sampleCfg)) sampleCfg
      = sampleCfg\<lparr>outputRatio := Ratio_1_1\<rparr>"
    by (simp add: appliedConfig_def ratioChange_def mergeEditConfig_def orElse_def)
  note t = gesture_coalescing[OF h1 h2 h3 h4 h5, of specLib "ratioChange Ratio_1_1"
      "loadedWorld sampleCfg" sampleCfg "ratioChange Ratio_1_1"]
  from t h1 h6 h7 ap have
    "editHistory (store (advance 1490 (gesture specLib
         ((1000, ratioChange Ratio_1_1) # burst 1010 19 (ratioChange Ratio_4_5))
         (loadedWorld sampleCfg)))) = [sampleCfg]"
    "editConfig (store (updateEditConfigDebounced specLib (ratioChange Ratio_1_1)
         (loadedWorld sampleCfg))) = Some (sampleCfg\<lparr>outputRatio := Ratio_1_1\<rparr>)"
    by (simp_all add: sliceLast_def del: gesture.simps)
  then show ?thesis using h1 h2 h3 h4 h5 h6 n by simp
qed


section \<open>Undo and redo with a gesture pending\<close>

lemma undo_flushes_pending:
  assumes "debounceSnapshot w = Some P" "editConfig (store w) = Some G"
  shows "editConfig (store (undo w)) = Some P
       \<and> editHistory (store (undo w)) = butlast (sliceLast MAX_HISTORY (editHistory (store w) @ [P]))
       \<and> editFuture (store (undo w)) = [G]
       \<and> debounceIdle (undo w)"
proof -
  have ne: "sliceLast MAX_HISTORY (editHistory (store w) @ [P]) \<noteq> []"
    by (simp add: sliceLast_def MAX_HISTORY_def)
  have "last (sliceLast MAX_HISTORY (editHistory (store w) @ [P])) = P"
    by (simp add: sliceLast_def MAX_HISTORY_def)
  then show ?thesis using assms ne by (simp add: undo_def Let_def debounceIdle_def)
qed

lemma redo_discards_pending:
  assumes "debounceTimer w = Some due"
  shows "debounceIdle (redo w)
       \<and> (editFuture (store w) = [] \<longrightarrow> store (redo w) = store w)
       \<and> (\<forall>c nxt rest. editConfig (store w) = Some c \<and> editFuture (store w) = nxt # rest \<longrightarrow>
            editHistory (store (redo w)) = editHistory (store w) @ [c])"
  using assms by (auto simp: redo_def Let_def debounceIdle_def split: option.split list.split)

lemma gestureWorld_eval:
  "editConfig (store gestureWorld) = Some (sampleCfg\<lparr>outputRatio := Ratio_4_5\<rparr>)
   \<and> editHistory (store gestureWorld) = []
   \<and> editFuture (store gestureWorld) = []
   \<and> debounceSnapshot gestureWorld = Some sampleCfg
   \<and> debounceTimer gestureWorld = Some 1300"
  by (simp add: gestureWorld_def loadedWorld_def initialState_def updateEditConfigDebounced_def
      Let_def mergeEditConfig_def orElse_def ratioChange_def DEBOUNCE_MS_def)

lemma pendingWorld_eval:
  "editConfig (store pendingWorld) = Some (sampleCfg\<lparr>outputRatio := Ratio_4_5\<rparr>)
   \<and> editHistory (store pendingWorld) = []
   \<and> editFuture (store pendingWorld) = [sampleCfg\<lparr>outputRatio := Ratio_1_1\<rparr>]
   \<and> debounceSnapshot pendingWorld = Some sampleCfg
   \<and> debounceTimer pendingWorld = Some 1300"
  by (simp add: pendingWorld_def ratioEdit_def loadedWorld_def initialState_def
      updateEditConfig_def updateEditConfigDebounced_def undo_def Let_def pushHistory_def
      mergeEditConfig_def orElse_def ratioChange_def sliceLast_def MAX_HISTORY_def DEBOUNCE_MS_def)

lemma ratio_4_5_differs: "sampleCfg\<lparr>outputRatio := Ratio_4_5\<rparr> \<noteq> sampleCfg"
proof
  assume "sampleCfg\<lparr>outputRatio := Ratio_4_5\<rparr> = sampleCfg"
  then have "outputRatio (sampleCfg\<lparr>outputRatio := Ratio_4_5\<rparr>) = outputRatio sampleCfg" by simp
  then show False by (simp add: sampleCfg_def sampleConfig_def)
qed

text \<open>
  C5.  The failing input: a gesture is in flight, with the pre-gesture snapshot \<open>sampleCfg\<close>
  pending.  Undo flushes the snapshot and pops it, so the editor is back at the pre-gesture
  configuration and the gesture's result is on the redo stack.  Redo clears the pending
  snapshot without pushing it.  With an empty redo stack (\<open>gestureWorld\<close>) nothing else
  happens: the undo stack stays empty however long one waits, and an undo leaves the
  gesture's result in place.  With a redo stack (\<open>pendingWorld\<close>) the gesture's result is
  pushed and the snapshot is in neither stack, so an undo returns to the gesture's result.
  Either way the configuration before the gesture cannot be reached any more.
\<close>

theorem redo_drops_pending_snapshot:
  "debounceSnapshot gestureWorld = Some sampleCfg
   \<and> editConfig (store gestureWorld) = Some (sampleCfg\<lparr>outputRatio := Ratio_4_5\<rparr>)
   \<and> editConfig (store (undo gestureWorld)) = Some sampleCfg
   \<and> editFuture (store (undo gestureWorld)) = [sampleCfg\<lparr>outputRatio := Ratio_4_5\<rparr>]
   \<and> debounceSnapshot (redo gestureWorld) = None
   \<and> editHistory (store (redo gestureWorld)) = []
   \<and> editHistory (store (advance 5000 (redo gestureWorld))) = []
   \<and> editConfig (store (undo (advance 5000 (redo gestureWorld))))
       = Some (sampleCfg\<lparr>outputRatio := Ratio_4_5\<rparr>)
   \<and> debounceSnapshot pendingWorld = Some sampleCfg
   \<and> editConfig (store (undo pendingWorld)) = Some sampleCfg
   \<and> debounceSnapshot (redo pendingWorld) = None
   \<and> editHistory (store (redo pendingWorld)) = [sampleCfg\<lparr>outputRatio := Ratio_4_5\<rparr>]
   \<and> sampleCfg \<notin> set (editHistory (store (redo pendingWorld)))
   \<and> editConfig (store (undo (redo pendingWorld))) = Some (sampleCfg\<lparr>outputRatio := Ratio_4_5\<rparr>)"
proof -
  note g = gestureWorld_eval
  note p = pendingWorld_eval
  have gu: "editConfig (store (undo gestureWorld)) = Some sampleCfg"
    "editFuture (store (undo gestureWorld)) = [sampleCfg\<lparr>outputRatio := Ratio_4_5\<rparr>]"
    using undo_flushes_pending[of gestureWorld sampleCfg "sampleCfg\<lparr>outputRatio := Ratio_4_5\<rparr>"] g
    by simp_all
  have gr: "debounceSnapshot (redo gestureWorld) = None" "debounceTimer (redo gestureWorld) = None"
    "editHistory (store (redo gestureWorld)) = []"
    "editConfig (store (redo gestureWorld)) = Some (sampleCfg\<lparr>outputRatio := Ratio_4_5\<rparr>)"
    using g by (simp_all add: redo_def Let_def)
  have ga: "store (advance 5000 (redo gestureWorld)) = store (redo gestureWorld)"
    "debounceSnapshot (advance 5000 (redo gestureWorld)) = None"
    using gr by (simp_all add: advance_idle)
  have gau: "store (undo (advance 5000 (redo gestureWorld))) = store (advance 5000 (redo gestureWorld))"
    using undo_empty[of "advance 5000 (redo gestureWorld)"] ga gr by simp
  have pu: "editConfig (store (undo pendingWorld)) = Some sampleCfg"
    using undo_flushes_pending[of pendingWorld sampleCfg "sampleCfg\<lparr>outputRatio := Ratio_4_5\<rparr>"] p
    by simp
  have r: "debounceSnapshot (redo pendingWorld) = None"
    "editConfig (store (redo pendingWorld)) = Some (sampleCfg\<lparr>outputRatio := Ratio_1_1\<rparr>)"
    "editHistory (store (redo pendingWorld)) = [sampleCfg\<lparr>outputRatio := Ratio_4_5\<rparr>]"
    using p by (simp_all add: redo_def Let_def)
  have ur: "editConfig (store (undo (redo pendingWorld))) = Some (sampleCfg\<lparr>outputRatio := Ratio_4_5\<rparr>)"
    using undo_pop[of "redo pendingWorld" "sampleCfg\<lparr>outputRatio := Ratio_1_1\<rparr>" "[]"
        "sampleCfg\<lparr>outputRatio := Ratio_4_5\<rparr>"] r by simp
  show ?thesis using g p gu gr ga gau pu r ur ratio_4_5_differs by auto
qed

section \<open>Deleting zooms, annotations and segments\<close>

lemma deleteZoom_loaded:
  assumes "editConfig (store w) = Some cfg"
  shows "deleteZoom i w =
     w\<lparr>store := (store w)\<lparr>
          editConfig := Some (cfg\<lparr>zooms := filter (\<lambda>z. zoom_id z \<noteq> i) (zooms cfg)\<rparr>),
          editHistory := sliceLast MAX_HISTORY (editHistory (store w) @ [cfg]),
          editFuture := [],
          isDirty := True,
          selectedElement := (if selectionHasId (selectedElement (store w)) i then None
                              else selectedElement (store w))\<rparr>\<rparr>"
  using assms by (simp add: deleteZoom_def Let_def pushHistory_Some)

lemma deleteAnnotation_loaded:
  assumes "editConfig (store w) = Some cfg"
  shows "deleteAnnotation i w =
     w\<lparr>store := (store w)\<lparr>
          editConfig := Some (cfg\<lparr>annotations :=
             Some (filter (\<lambda>a. ann_id a \<noteq> i) (annotationsOrEmpty cfg))\<rparr>),
          editHistory := sliceLast MAX_HISTORY (editHistory (store w) @ [cfg]),
          editFuture := [],
          isDirty := True,
          selectedElement := (if selectionHasId (selectedElement (store w)) i then None
                              else selectedElement (store w))\<rparr>\<rparr>"
  using assms by (simp add: deleteAnnotation_def Let_def pushHistory_Some)

text \<open>
  C10 as stated fails where no configuration is loaded: both deletions return at once, so
  the selection stays even when its id is the deleted one.
\<close>

theorem delete_selection_counterexample:
  "selectionHasId (selectedElement (store (selectElement (Some zoomSelection)
        (initialWorld 0 :: (unit, unit) World)))) ''z1''
   \<and> selectedElement (store (deleteZoom ''z1'' (selectElement (Some zoomSelection)
        (initialWorld 0 :: (unit, unit) World)))) = Some zoomSelection"
  by (simp add: selectElement_def initialWorld_def initialState_def deleteZoom_def
      selectionHasId_def zoomSelection_def)

text \<open>
  C10, as amended.  In a state with a loaded configuration, deleting a zoom or an annotation
  whose id is the selected element's id clears the selection, and deleting any other one
  leaves the selection as it was.  Either way the store differs from the one before in the
  edit configuration, the two history stacks, the dirty flag and the selection at most, and
  the debounce variables and the clock are untouched.  With no configuration loaded both
  deletions change nothing at all.
\<close>

theorem delete_clears_selection:
  fixes w :: "('c, 'p) World"
  assumes "editConfig (store w) = Some cfg"
  shows "selectedElement (store (deleteZoom i w))
           = (if selectionHasId (selectedElement (store w)) i then None else selectedElement (store w))
       \<and> selectedElement (store (deleteAnnotation i w))
           = (if selectionHasId (selectedElement (store w)) i then None else selectedElement (store w))
       \<and> (store (deleteZoom i w))\<lparr>editConfig := editConfig (store w),
             editHistory := editHistory (store w), editFuture := editFuture (store w),
             isDirty := isDirty (store w), selectedElement := selectedElement (store w)\<rparr> = store w
       \<and> (store (deleteAnnotation i w))\<lparr>editConfig := editConfig (store w),
             editHistory := editHistory (store w), editFuture := editFuture (store w),
             isDirty := isDirty (store w), selectedElement := selectedElement (store w)\<rparr> = store w
       \<and> (deleteZoom i w)\<lparr>store := store w\<rparr> = w
       \<and> (deleteAnnotation i w)\<lparr>store := store w\<rparr> = w
       \<and> (\<forall>v :: ('c, 'p) World. editConfig (store v) = None \<longrightarrow>
             deleteZoom i v = v \<and> deleteAnnotation i v = v)"
proof -
  have none: "\<forall>v :: ('c, 'p) World. editConfig (store v) = None \<longrightarrow>
             deleteZoom i v = v \<and> deleteAnnotation i v = v"
    by (simp add: deleteZoom_def deleteAnnotation_def)
  show ?thesis
    unfolding deleteZoom_loaded[OF assms] deleteAnnotation_loaded[OF assms]
    using none by simp
qed

theorem delete_clears_selection_witness:
  "editConfig (store (selectElement (Some zoomSelection) zoomWorld))
     = Some (sampleConfig twoSegs [wideZoom])
   \<and> selectionHasId (selectedElement (store (selectElement (Some zoomSelection) zoomWorld))) ''z1''
   \<and> selectedElement (store (deleteZoom ''z1'' (selectElement (Some zoomSelection) zoomWorld))) = None
   \<and> \<not> selectionHasId (selectedElement (store (selectElement (Some zoomSelection) zoomWorld))) ''z2''
   \<and> selectedElement (store (deleteAnnotation ''z2'' (selectElement (Some zoomSelection) zoomWorld)))
       = Some zoomSelection"
proof -
  have h: "editConfig (store (selectElement (Some zoomSelection) zoomWorld))
     = Some (sampleConfig twoSegs [wideZoom])"
    by (simp add: selectElement_def zoomWorld_def loadedWorld_def)
  have s: "selectedElement (store (selectElement (Some zoomSelection) zoomWorld)) = Some zoomSelection"
    by (simp add: selectElement_def)
  have i1: "selectionHasId (Some zoomSelection) ''z1''"
    and i2: "\<not> selectionHasId (Some zoomSelection) ''z2''"
    by (simp_all add: selectionHasId_def zoomSelection_def)
  from delete_clears_selection[OF h, of "''z1''"] delete_clears_selection[OF h, of "''z2''"]
  show ?thesis using h s i1 i2 by simp
qed


text \<open>
  C8.  In a state whose configuration has exactly one segment, with that segment selected,
  each way the interface offers to delete the selected segment (the Delete or Backspace
  key, the toolbar's delete button, the segment panel's delete button) leaves the whole
  state, and with it the configuration and its single segment, as it was.  The guard is in
  these callers: the store's \<open>deleteSegment\<close> itself hands the list to the segment library
  without looking at its length.
\<close>

theorem delete_sole_segment_noop:
  assumes "editConfig (store w) = Some cfg" and "length (segments cfg) = 1"
    and "selectedElement (store w) = Some sel" and "sel_type sel = el_segment"
  shows "handleKeyDown lib key targetIsField w = w
       \<and> handleDeleteSelected lib w = w
       \<and> segmentPanelDelete lib sg w = w
       \<and> map_option (\<lambda>c. length (segments c)) (editConfig (store (handleKeyDown lib key targetIsField w)))
           = Some 1
       \<and> editConfig (store (deleteSegment lib i w))
           = Some (syncCutsFromSegments lib (cfg\<lparr>segments := deleteSeg lib (segments cfg) i\<rparr>)
                    (clipEnd (store w) - clipStart (store w)))"
  using assms
  by (simp add: handleKeyDown_def handleDeleteSelected_def deleteSelection_def
      segmentPanelDelete_def canDelete_def deleteSegment_def Let_def)

theorem delete_sole_segment_noop_witness:
  "editConfig (store oneSegWorld) = Some (sampleConfig [mkSeg ''a'' 0 10] [])
   \<and> length (segments (sampleConfig [mkSeg ''a'' 0 10] [])) = 1
   \<and> selectedElement (store oneSegWorld) = Some segmentSelection
   \<and> sel_type segmentSelection = el_segment
   \<and> handleKeyDown specLib ''Delete'' False oneSegWorld = oneSegWorld
   \<and> handleKeyDown specLib ''Backspace'' False oneSegWorld = oneSegWorld
   \<and> handleDeleteSelected specLib oneSegWorld = oneSegWorld
   \<and> map_option (\<lambda>c. length (segments c))
        (editConfig (store (handleKeyDown specLib ''Delete'' False oneSegWorld))) = Some 1
   \<and> map_option (\<lambda>c. length (segments c))
        (editConfig (store (deleteSegment specLib ''a'' oneSegWorld))) = Some 0"
proof -
  have h1: "editConfig (store oneSegWorld) = Some (sampleConfig [mkSeg ''a'' 0 10] [])"
    by (simp add: oneSegWorld_def selectElement_def loadedWorld_def)
  have h2: "length (segments (sampleConfig [mkSeg ''a'' 0 10] [])) = 1"
    by (simp add: sampleConfig_def)
  have h3: "selectedElement (store oneSegWorld) = Some segmentSelection"
    by (simp add: oneSegWorld_def selectElement_def)
  have h4: "sel_type segmentSelection = el_segment" by (simp add: segmentSelection_def)
  have h5: "map_option (\<lambda>c. length (segments c))
        (editConfig (store (deleteSegment specLib ''a'' oneSegWorld))) = Some 0"
    using h1 by (simp add: deleteSegment_def Let_def syncCutsFromSegments_def specLib_def
        spec_deleteSeg_def sampleConfig_def mkSeg_def)
  from delete_sole_segment_noop[OF h1 h2 h3 h4, of specLib "''Delete''" False]
    delete_sole_segment_noop[OF h1 h2 h3 h4, of specLib "''Backspace''" False]
  show ?thesis using h1 h2 h3 h4 h5 by simp
qed

section \<open>Zoom anchors\<close>

lemma clampZoomAnchor_range:
  assumes "1 \<le> sc"
  shows "0.5 / sc \<le> fst (clampZoomAnchor ax ay sc) \<and> fst (clampZoomAnchor ax ay sc) \<le> 1 - 0.5 / sc
       \<and> 0.5 / sc \<le> snd (clampZoomAnchor ax ay sc) \<and> snd (clampZoomAnchor ax ay sc) \<le> 1 - 0.5 / sc"
proof -
  have "0.5 / sc \<le> 0.5" using assms by (simp add: field_simps)
  then have "0.5 / sc \<le> 1 - 0.5 / sc" by simp
  then show ?thesis by (simp add: clampZoomAnchor_def Let_def min_def max_def)
qed

lemma updateZoomEntry_in_range:
  assumes "zoom_id z = i" "1 \<le> scale (mergeZoom z changes)"
  shows "anchorsInRange (updateZoomEntry i changes z)"
  using assms clampZoomAnchor_range[of "scale (mergeZoom z changes)"
      "anchorX (mergeZoom z changes)" "anchorY (mergeZoom z changes)"]
  by (simp add: updateZoomEntry_def anchorsInRange_def Let_def)

lemma addZoom_in_range:
  assumes "editConfig (store w) = Some cfg"
  shows "\<exists>cfg' z. editConfig (store (addZoom t w)) = Some cfg' \<and> zooms cfg' = zooms cfg @ [z]
       \<and> anchorsInRange z"
  using assms clampZoomAnchor_range[of "1.15" "0.5" "0.4"]
  by (simp add: addZoom_def Let_def anchorsInRange_def)

text \<open>
  C7.  The failing input: a zoom of scale 2 with both anchors at 0.25, which is in range,
  and the scale slider moved to 1.5.  The slider's handler writes the new scale through the
  debounced update and the anchors stay at 0.25, below \<open>0.5 / 1.5\<close>: the stored keyframe
  is out of range.  The store's \<open>updateZoom\<close> on the same input clamps both anchors to
  one third.  The anchor sliders' lower bound is rounded to two decimals and can lie below
  \<open>0.5 / scale\<close> as well.
\<close>

theorem scale_slider_skips_clamp:
  "anchorsInRange wideZoom
   \<and> map_option (\<lambda>c. map zoomTriple (zooms c))
        (editConfig (store (zoomScaleSlider specLib wideZoom 1.5 zoomWorld)))
       = Some [(1.5, 0.25, 0.25)]
   \<and> map_option (\<lambda>c. map anchorsInRange (zooms c))
        (editConfig (store (zoomScaleSlider specLib wideZoom 1.5 zoomWorld)))
       = Some [False]
   \<and> map_option (\<lambda>c. map zoomTriple (zooms c))
        (editConfig (store (updateZoom ''z1'' (scaleChange 1.5) zoomWorld)))
       = Some [(1.5, 1 / 3, 1 / 3)]
   \<and> anchorSliderMin 1.15 = 0.43 \<and> anchorSliderMin 1.15 < 0.5 / 1.15"
proof -
  have a: "anchorsInRange wideZoom" by (simp add: anchorsInRange_def wideZoom_def)
  have c: "editConfig (store zoomWorld) = Some (sampleConfig twoSegs [wideZoom])"
    by (simp add: zoomWorld_def loadedWorld_def)
  have s: "map_option (\<lambda>c. map zoomTriple (zooms c))
        (editConfig (store (zoomScaleSlider specLib wideZoom 1.5 zoomWorld)))
       = Some [(1.5, 0.25, 0.25)]"
    using c by (simp add: zoomScaleSlider_def updateEditConfigDebounced_def Let_def
        zoomsChange_def mergeEditConfig_def orElse_def sampleConfig_def zoomTriple_def wideZoom_def)
  have r: "map_option (\<lambda>c. map anchorsInRange (zooms c))
        (editConfig (store (zoomScaleSlider specLib wideZoom 1.5 zoomWorld)))
       = Some [False]"
    using c by (simp add: zoomScaleSlider_def updateEditConfigDebounced_def Let_def
        zoomsChange_def mergeEditConfig_def orElse_def sampleConfig_def anchorsInRange_def
        wideZoom_def)
  have u: "map_option (\<lambda>c. map zoomTriple (zooms c))
        (editConfig (store (updateZoom ''z1'' (scaleChange 1.5) zoomWorld)))
       = Some [(1.5, 1 / 3, 1 / 3)]"
    using c by (simp add: updateZoom_def Let_def updateZoomEntry_def mergeZoom_def orElse_def
        scaleChange_def clampZoomAnchor_def sampleConfig_def zoomTriple_def wideZoom_def)
  have m: "anchorSliderMin 1.15 = 0.43"
  proof -
    have "\<lfloor>(0.5 / 1.15 * 100 + 1 / 2 :: real)\<rfloor> = 43" by (simp add: floor_eq_iff)
    then show ?thesis by (simp add: anchorSliderMin_def mathRound_def)
  qed
  have l: "(0.43 :: real) < 0.5 / 1.15" by simp
  show ?thesis using a s r u m l by simp
qed


section \<open>Snapping\<close>

lemma set_gridFrom: "set (gridFrom t dur) = {t + real k | k. t + real k \<le> dur}"
proof (induction t dur rule: gridFrom.induct)
  case (1 t dur)
  show ?case
  proof (cases "t \<le> dur")
    case True
    have "{t + real k | k. t + real k \<le> dur}
            = insert t {t + 1 + real k | k. t + 1 + real k \<le> dur}" (is "?L = ?R")
    proof
      show "?L \<subseteq> ?R"
      proof
        fix x assume "x \<in> ?L"
        then obtain k where k: "x = t + real k" "t + real k \<le> dur" by auto
        show "x \<in> ?R"
        proof (cases k)
          case 0
          then show ?thesis using k by simp
        next
          case (Suc j)
          then have "x = t + 1 + real j" "t + 1 + real j \<le> dur" using k by simp_all
          then show ?thesis by blast
        qed
      qed
      show "?R \<subseteq> ?L"
      proof
        fix x assume "x \<in> ?R"
        then consider "x = t" | j where "x = t + 1 + real j" "t + 1 + real j \<le> dur" by auto
        then show "x \<in> ?L"
        proof cases
          case 1
          then have "x = t + real 0" "t + real 0 \<le> dur" using True by simp_all
          then show ?thesis by blast
        next
          case 2
          then have "x = t + real (Suc j)" "t + real (Suc j) \<le> dur" by simp_all
          then show ?thesis by blast
        qed
      qed
    qed
    then show ?thesis using True 1 by (subst gridFrom.simps) simp
  next
    case False
    then have "{t + real k | k. t + real k \<le> dur} = {}" by auto
    then show ?thesis using False by (subst gridFrom.simps) simp
  qed
qed

lemma set_dedupeInto: "set (dedupeInto seen xs) = set seen \<union> set xs"
  by (induction xs arbitrary: seen) auto

lemma distinct_dedupeInto: "distinct seen \<Longrightarrow> distinct (dedupeInto seen xs)"
  by (induction xs arbitrary: seen) auto

lemma snapPoints_set:
  "set (snapPoints blocks markers td cd) = roundMs ` snapSources blocks markers (numberOr td cd)"
proof -
  have g: "set (gridFrom 0 (numberOr td cd)) = {real k | k. real k \<le> numberOr td cd}"
    using set_gridFrom[of 0 "numberOr td cd"] by simp
  show ?thesis
    unfolding snapPoints_def Let_def snapSources_def
    by (simp add: dedupe_def set_dedupeInto g image_Un) (auto simp: image_iff)
qed

lemma snapPoints_sorted_distinct:
  "sorted (snapPoints blocks markers td cd) \<and> distinct (snapPoints blocks markers td cd)"
  by (simp add: snapPoints_def Let_def dedupe_def distinct_dedupeInto)

lemma snapLoop_spec:
  assumes "case c of None \<Rightarrow> d = None | Some s \<Rightarrow> d = Some \<bar>t - s\<bar> \<and> \<bar>t - s\<bar> < th"
  shows "(fst (snapLoop t th pts (c, d)) = None
            \<longleftrightarrow> c = None \<and> (\<forall>sp \<in> set pts. th \<le> \<bar>t - sp\<bar>))
       \<and> (\<forall>s. fst (snapLoop t th pts (c, d)) = Some s \<longrightarrow>
              (s \<in> set pts \<or> c = Some s) \<and> \<bar>t - s\<bar> < th
            \<and> (\<forall>sp \<in> set pts. \<bar>t - s\<bar> \<le> \<bar>t - sp\<bar>)
            \<and> (\<forall>s0. c = Some s0 \<longrightarrow> \<bar>t - s\<bar> \<le> \<bar>t - s0\<bar>))"
  using assms
proof (induction pts arbitrary: c d)
  case Nil
  then show ?case by (cases c) auto
next
  case (Cons sp rest)
  let ?dist = "\<bar>t - sp\<bar>"
  show ?case
  proof (cases "?dist < th \<and> (case d of None \<Rightarrow> True | Some d0 \<Rightarrow> ?dist < d0)")
    case True
    have inv: "case Some sp of None \<Rightarrow> Some ?dist = None
               | Some s \<Rightarrow> Some ?dist = Some \<bar>t - s\<bar> \<and> \<bar>t - s\<bar> < th"
      using True by simp
    have step: "snapLoop t th (sp # rest) (c, d) = snapLoop t th rest (Some sp, Some ?dist)"
      using True by (simp add: Let_def)
    from Cons.IH[OF inv] have ih:
      "fst (snapLoop t th rest (Some sp, Some ?dist)) \<noteq> None"
      "\<And>s. fst (snapLoop t th rest (Some sp, Some ?dist)) = Some s \<Longrightarrow>
          (s \<in> set rest \<or> s = sp) \<and> \<bar>t - s\<bar> < th
        \<and> (\<forall>x \<in> set rest. \<bar>t - s\<bar> \<le> \<bar>t - x\<bar>) \<and> \<bar>t - s\<bar> \<le> ?dist"
      by auto
    have better: "\<And>s0. c = Some s0 \<Longrightarrow> ?dist < \<bar>t - s0\<bar>"
      using True Cons.prems by (cases d) auto
    show ?thesis unfolding step using ih better True
      by (auto simp del: snapLoop.simps)
  next
    case False
    have step: "snapLoop t th (sp # rest) (c, d) = snapLoop t th rest (c, d)"
      using False by (auto simp: Let_def)
    note ih = Cons.IH[OF Cons.prems]
    have far: "c = None \<Longrightarrow> th \<le> ?dist" using False Cons.prems by (cases d) auto
    have worse: "\<And>s0. c = Some s0 \<Longrightarrow> \<bar>t - s0\<bar> \<le> ?dist \<or> th \<le> ?dist"
      using False Cons.prems by (cases d) auto
    show ?thesis unfolding step using ih far worse Cons.prems
      by (cases c) (auto simp del: snapLoop.simps)
  qed
qed


lemma snapTime_spec:
  "(snapped (snapTime tz pts t) \<longleftrightarrow> (\<exists>sp \<in> set pts. \<bar>t - sp\<bar> < xToTime tz SNAP_THRESHOLD_PX))
   \<and> (snapped (snapTime tz pts t) \<longrightarrow>
         snap_time (snapTime tz pts t) \<in> set pts
       \<and> snapPoint (snapTime tz pts t) = Some (snap_time (snapTime tz pts t))
       \<and> \<bar>t - snap_time (snapTime tz pts t)\<bar> < xToTime tz SNAP_THRESHOLD_PX
       \<and> (\<forall>sp \<in> set pts. \<bar>t - snap_time (snapTime tz pts t)\<bar> \<le> \<bar>t - sp\<bar>))
   \<and> (\<not> snapped (snapTime tz pts t) \<longrightarrow>
         snap_time (snapTime tz pts t) = t \<and> snapPoint (snapTime tz pts t) = None)"
proof -
  let ?th = "xToTime tz SNAP_THRESHOLD_PX"
  have inv: "case (None :: real option) of None \<Rightarrow> (None :: real option) = None
             | Some s \<Rightarrow> None = Some \<bar>t - s\<bar> \<and> \<bar>t - s\<bar> < ?th" by simp
  note sp = snapLoop_spec[OF inv, of pts]
  show ?thesis
  proof (cases "fst (snapLoop t ?th pts (None, None))")
    case None
    then have "\<forall>sp \<in> set pts. ?th \<le> \<bar>t - sp\<bar>" using sp by simp
    then have "\<not> (\<exists>sp \<in> set pts. \<bar>t - sp\<bar> < ?th)" by (auto simp: not_less)
    then show ?thesis using None by (simp add: snapTime_def Let_def)
  next
    case (Some s)
    then have "s \<in> set pts" "\<bar>t - s\<bar> < ?th" "\<forall>x \<in> set pts. \<bar>t - s\<bar> \<le> \<bar>t - x\<bar>"
      using sp by auto
    then show ?thesis using Some by (auto simp: snapTime_def Let_def)
  qed
qed

lemma roundMs_values: "roundMs 0 = 0 \<and> roundMs 1 = 1 \<and> roundMs 1.0004 = 1"
proof -
  have "\<lfloor>(1 :: real) * 1000 + 1 / 2\<rfloor> = 1000" by (simp add: floor_eq_iff)
  moreover have "\<lfloor>(1.0004 :: real) * 1000 + 1 / 2\<rfloor> = 1000" by (simp add: floor_eq_iff)
  moreover have "\<lfloor>(0 :: real) * 1000 + 1 / 2\<rfloor> = 0" by (simp add: floor_eq_iff)
  ultimately show ?thesis by (simp add: roundMs_def mathRound_def)
qed

lemma gridFrom_odd: "1 \<le> d \<Longrightarrow> d < 2 \<Longrightarrow> gridFrom 0 d = [0, 1]"
proof -
  assume d: "1 \<le> d" "d < 2"
  have "gridFrom 2 d = []" using d by (subst gridFrom.simps) simp
  then have "gridFrom 1 d = [1]" using d by (subst gridFrom.simps) simp
  then show ?thesis using d by (subst gridFrom.simps) simp
qed

lemma oddWorld_blocks:
  "map outputStart (segmentBlocks (timelineZoom (store oddWorld)) (editConfig (store oddWorld))) = [0]
   \<and> map outputEnd (segmentBlocks (timelineZoom (store oddWorld)) (editConfig (store oddWorld)))
       = [1.0004]
   \<and> timelineZoom (store oddWorld) = 50"
  by (simp add: oddWorld_def setPlaybackState_def loadedWorld_def initialState_def
      segmentBlocks_def oddCfg_def sampleConfig_def mkSeg_def Let_def)

lemma oddWorld_points: "storeSnapPoints (store oddWorld) = [0, 1]"
proof -
  have "snapPoints (segmentBlocks 50 (Some oddCfg)) (zoomMarkers 50 (Some oddCfg)) 1.0004 (20 - 0)
          = [0, 1]"
    using roundMs_values
    by (simp add: snapPoints_def Let_def segmentBlocks_def zoomMarkers_def oddCfg_def
        sampleConfig_def mkSeg_def numberOr_def gridFrom_odd dedupe_def)
  then show ?thesis
    by (simp add: storeSnapPoints_def oddWorld_def setPlaybackState_def loadedWorld_def
        initialState_def)
qed

lemma oddWorld_snap0: "snap_time (storeSnapTime (store oddWorld) 0) = 0"
  using oddWorld_points oddWorld_blocks
  by (simp add: storeSnapTime_def snapTime_def Let_def xToTime_def SNAP_THRESHOLD_PX_def)

text \<open>
  C9 as stated fails in two places.  The snap points are rounded to the millisecond: a
  segment that ends at output time 1.0004 contributes the snap point 1, and 1.0004 is not
  a snap point.  And the raw candidate time is not allowed below 0: dragging an edge from
  source time 1 by 100 pixels to the left at 50 pixels per second gives the candidate 0,
  not \<open>1 - 2\<close>, and the preview shows 0.
\<close>

theorem drag_snapping_counterexample:
  "map outputEnd (segmentBlocks (timelineZoom (store oddWorld)) (editConfig (store oddWorld)))
     = [1.0004]
   \<and> (1.0004 :: real) \<notin> set (storeSnapPoints (store oddWorld))
   \<and> dragInitialTime (SegmentEdgeDrag ''a'' edge_end 1)
        + xToTime (timelineZoom (store oddWorld)) (100 - dragStartX edgeDrag) = - 1
   \<and> dragPreviewTime (fst (handleMouseMove 100 (edgeDrag, oddWorld))) = Some 0"
proof -
  have tz: "timelineZoom (store oddWorld) = 50" using oddWorld_blocks by simp
  have a: "(1.0004 :: real) \<notin> set (storeSnapPoints (store oddWorld))"
    unfolding oddWorld_points by simp
  have b: "dragInitialTime (SegmentEdgeDrag ''a'' edge_end 1)
        + xToTime (timelineZoom (store oddWorld)) (100 - dragStartX edgeDrag) = - 1"
    unfolding tz by (simp add: dragInitialTime_def xToTime_def edgeDrag_def)
  have c: "dragPreviewTime (fst (handleMouseMove 100 (edgeDrag, oddWorld))) = Some 0"
    using oddWorld_snap0 tz
    by (simp add: handleMouseMove_def Let_def edgeDrag_def dragInitialTime_def xToTime_def)
  show ?thesis using oddWorld_blocks a b c by blast
qed


lemma mouseDown_keeps_config:
  "editConfig (store (snd (handleSegmentEdgeMouseDown x i e (ts, w)))) = editConfig (store w)
   \<and> editHistory (store (snd (handleSegmentEdgeMouseDown x i e (ts, w)))) = editHistory (store w)
   \<and> editConfig (store (snd (handleZoomMouseDown x i (ts, w)))) = editConfig (store w)
   \<and> editHistory (store (snd (handleZoomMouseDown x i (ts, w)))) = editHistory (store w)"
  by (simp add: handleSegmentEdgeMouseDown_def handleZoomMouseDown_def selectElement_def Let_def
      split: option.split)

lemma mouseMove_effect:
  "snd (handleMouseMove x (ts, w)) = w
   \<and> (dragState ts = Some d \<longrightarrow>
        dragPreviewTime (fst (handleMouseMove x (ts, w)))
          = Some (snap_time (storeSnapTime (store w)
                   (max 0 (dragInitialTime d + xToTime (timelineZoom (store w)) (x - dragStartX ts)))))
      \<and> snappedPoint (fst (handleMouseMove x (ts, w)))
          = snapPoint (storeSnapTime (store w)
                   (max 0 (dragInitialTime d + xToTime (timelineZoom (store w)) (x - dragStartX ts)))))"
  by (simp add: handleMouseMove_def Let_def split: option.split)

lemma mouseUp_effect:
  "(\<bar>x - dragStartX ts\<bar> \<le> 2 \<longrightarrow> snd (handleMouseUp lib x (ts, w)) = w)
   \<and> (2 < \<bar>x - dragStartX ts\<bar> \<and> dragState ts = Some (SegmentEdgeDrag i e t0) \<longrightarrow>
        snd (handleMouseUp lib x (ts, w))
          = adjustSegmentEdge lib i e
              (snap_time (storeSnapTime (store w)
                 (max 0 (t0 + xToTime (timelineZoom (store w)) (x - dragStartX ts))))) w)
   \<and> (2 < \<bar>x - dragStartX ts\<bar> \<and> dragState ts = Some (ZoomMoveDrag i t0) \<longrightarrow>
        snd (handleMouseUp lib x (ts, w))
          = updateZoom i
              (timeChange (snap_time (storeSnapTime (store w)
                 (max 0 (t0 + xToTime (timelineZoom (store w)) (x - dragStartX ts)))))) w)"
  by (simp add: handleMouseUp_def Let_def split: option.split)

text \<open>
  C9, as amended.  The snap points of a drag are the values, rounded to the millisecond, of
  every segment's output start and end, every zoom's start and end and the whole seconds
  from 0 up to the duration; the list is sorted and has no duplicates.  On pointer move the
  raw candidate time is the drag's initial time plus the pixel delta converted to time, but
  not below 0; it is replaced by a snap point exactly when one lies strictly within the
  time that 8 pixels stand for, and then by a nearest one; the pointer move leaves the
  store alone.  On pointer release the store is left alone when the pointer moved by 2
  pixels or less; otherwise the snapped time goes to \<open>adjustSegmentEdge\<close> or to
  \<open>updateZoom\<close>.  The pointer press selects the element and leaves the configuration
  and the undo stack alone.
\<close>

theorem drag_snapping:
  fixes w :: "('c, 'p) World"
  assumes "0 < timelineZoom (store w)"
  shows "set (storeSnapPoints (store w))
           = roundMs ` snapSources (segmentBlocks (timelineZoom (store w)) (editConfig (store w)))
                (zoomMarkers (timelineZoom (store w)) (editConfig (store w)))
                (numberOr (totalDuration (store w)) (clipEnd (store w) - clipStart (store w)))
       \<and> sorted (storeSnapPoints (store w)) \<and> distinct (storeSnapPoints (store w))
       \<and> (snapped (storeSnapTime (store w) t) \<longleftrightarrow>
            (\<exists>sp \<in> set (storeSnapPoints (store w)). \<bar>t - sp\<bar> < 8 / timelineZoom (store w)))
       \<and> (snapped (storeSnapTime (store w) t) \<longrightarrow>
              snap_time (storeSnapTime (store w) t) \<in> set (storeSnapPoints (store w))
            \<and> \<bar>t - snap_time (storeSnapTime (store w) t)\<bar> < 8 / timelineZoom (store w)
            \<and> (\<forall>sp \<in> set (storeSnapPoints (store w)).
                  \<bar>t - snap_time (storeSnapTime (store w) t)\<bar> \<le> \<bar>t - sp\<bar>))
       \<and> (\<not> snapped (storeSnapTime (store w) t) \<longrightarrow> snap_time (storeSnapTime (store w) t) = t)
       \<and> snd (handleMouseMove x (ts, w)) = w
       \<and> (dragState ts = Some d \<longrightarrow>
            dragPreviewTime (fst (handleMouseMove x (ts, w)))
              = Some (snap_time (storeSnapTime (store w)
                  (max 0 (dragInitialTime d + xToTime (timelineZoom (store w)) (x - dragStartX ts))))))
       \<and> (\<bar>x - dragStartX ts\<bar> \<le> 2 \<longrightarrow> snd (handleMouseUp lib x (ts, w)) = w)
       \<and> (2 < \<bar>x - dragStartX ts\<bar> \<and> dragState ts = Some (SegmentEdgeDrag i e t0) \<longrightarrow>
            snd (handleMouseUp lib x (ts, w))
              = adjustSegmentEdge lib i e
                  (snap_time (storeSnapTime (store w)
                     (max 0 (t0 + xToTime (timelineZoom (store w)) (x - dragStartX ts))))) w)
       \<and> (2 < \<bar>x - dragStartX ts\<bar> \<and> dragState ts = Some (ZoomMoveDrag i t0) \<longrightarrow>
            snd (handleMouseUp lib x (ts, w))
              = updateZoom i
                  (timeChange (snap_time (storeSnapTime (store w)
                     (max 0 (t0 + xToTime (timelineZoom (store w)) (x - dragStartX ts)))))) w)
       \<and> editConfig (store (snd (handleSegmentEdgeMouseDown x i e (ts, w)))) = editConfig (store w)
       \<and> editHistory (store (snd (handleSegmentEdgeMouseDown x i e (ts, w)))) = editHistory (store w)
       \<and> editConfig (store (snd (handleZoomMouseDown x i (ts, w)))) = editConfig (store w)
       \<and> editHistory (store (snd (handleZoomMouseDown x i (ts, w)))) = editHistory (store w)"
proof -
  have th: "xToTime (timelineZoom (store w)) SNAP_THRESHOLD_PX = 8 / timelineZoom (store w)"
    by (simp add: xToTime_def SNAP_THRESHOLD_PX_def)
  note pts = snapPoints_set[of "segmentBlocks (timelineZoom (store w)) (editConfig (store w))"
      "zoomMarkers (timelineZoom (store w)) (editConfig (store w))" "totalDuration (store w)"
      "clipEnd (store w) - clipStart (store w)"]
  note sd = snapPoints_sorted_distinct[of "segmentBlocks (timelineZoom (store w)) (editConfig (store w))"
      "zoomMarkers (timelineZoom (store w)) (editConfig (store w))" "totalDuration (store w)"
      "clipEnd (store w) - clipStart (store w)"]
  note st = snapTime_spec[of "timelineZoom (store w)" "storeSnapPoints (store w)" t]
  have p1: "set (storeSnapPoints (store w))
           = roundMs ` snapSources (segmentBlocks (timelineZoom (store w)) (editConfig (store w)))
                (zoomMarkers (timelineZoom (store w)) (editConfig (store w)))
                (numberOr (totalDuration (store w)) (clipEnd (store w) - clipStart (store w)))"
    and p2: "sorted (storeSnapPoints (store w))" and p3: "distinct (storeSnapPoints (store w))"
    using pts sd by (simp_all add: storeSnapPoints_def)
  have p4: "(snapped (storeSnapTime (store w) t) \<longleftrightarrow>
            (\<exists>sp \<in> set (storeSnapPoints (store w)). \<bar>t - sp\<bar> < 8 / timelineZoom (store w)))"
    and p5: "(snapped (storeSnapTime (store w) t) \<longrightarrow>
              snap_time (storeSnapTime (store w) t) \<in> set (storeSnapPoints (store w))
            \<and> \<bar>t - snap_time (storeSnapTime (store w) t)\<bar> < 8 / timelineZoom (store w)
            \<and> (\<forall>sp \<in> set (storeSnapPoints (store w)).
                  \<bar>t - snap_time (storeSnapTime (store w) t)\<bar> \<le> \<bar>t - sp\<bar>))"
    and p6: "(\<not> snapped (storeSnapTime (store w) t) \<longrightarrow> snap_time (storeSnapTime (store w) t) = t)"
    using st unfolding th storeSnapTime_def by blast+
  note mv = mouseMove_effect[of x ts w d]
  note up = mouseUp_effect[of x ts lib w i e t0]
  note dn = mouseDown_keeps_config[of x i e ts w]
  show ?thesis
    apply (intro conjI)
    using p1 p2 p3 p4 p5 p6 mv up dn by blast+
qed

lemma oddWorld_snapped: "snapped (storeSnapTime (store oddWorld) 0.95)
   \<and> \<not> snapped (storeSnapTime (store oddWorld) 0.5)"
  using oddWorld_points oddWorld_blocks
  by (simp add: storeSnapTime_def snapTime_def Let_def xToTime_def SNAP_THRESHOLD_PX_def)

theorem drag_snapping_witness:
  "0 < timelineZoom (store oddWorld)
   \<and> snapped (storeSnapTime (store oddWorld) 0.95)
   \<and> snap_time (storeSnapTime (store oddWorld) 0.95) \<in> set (storeSnapPoints (store oddWorld))
   \<and> \<not> snapped (storeSnapTime (store oddWorld) 0.5)
   \<and> snap_time (storeSnapTime (store oddWorld) 0.5) = 0.5
   \<and> dragState edgeDrag = Some (SegmentEdgeDrag ''a'' edge_end 1)
   \<and> snd (handleMouseMove 225 (edgeDrag, oddWorld)) = oddWorld
   \<and> \<bar>201 - dragStartX edgeDrag\<bar> \<le> 2
   \<and> snd (handleMouseUp specLib 201 (edgeDrag, oddWorld)) = oddWorld
   \<and> 2 < \<bar>225 - dragStartX edgeDrag\<bar>
   \<and> snd (handleMouseUp specLib 225 (edgeDrag, oddWorld))
       = adjustSegmentEdge specLib ''a'' edge_end
           (snap_time (storeSnapTime (store oddWorld)
              (max 0 (1 + xToTime (timelineZoom (store oddWorld)) (225 - dragStartX edgeDrag)))))
           oddWorld"
proof -
  have h0: "0 < timelineZoom (store oddWorld)" using oddWorld_blocks by simp
  have h1: "dragState edgeDrag = Some (SegmentEdgeDrag ''a'' edge_end 1)"
    by (simp add: edgeDrag_def)
  have h2: "\<bar>201 - dragStartX edgeDrag\<bar> \<le> 2" and h3: "2 < \<bar>225 - dragStartX edgeDrag\<bar>"
    by (simp_all add: edgeDrag_def)
  note s = oddWorld_snapped
  note a = drag_snapping[OF h0, of "0.95" 225 edgeDrag "SegmentEdgeDrag ''a'' edge_end 1"
      specLib "''a''" edge_end 1]
  note b = drag_snapping[OF h0, of "0.5" 201 edgeDrag "SegmentEdgeDrag ''a'' edge_end 1"
      specLib "''a''" edge_end 1]
  show ?thesis
    apply (intro conjI)
    using h0 h1 h2 h3 s a b by blast+
qed


section \<open>Round trip through the coordinate mapper\<close>

lemma find_least:
  assumes "i < length xs" "P (xs ! i)" "\<forall>j<i. \<not> P (xs ! j)"
  shows "find P xs = Some (xs ! i)"
  using assms by (auto simp: find_Some_iff)

lemma first_index:
  assumes "list_ex P xs"
  obtains i where "i < length xs" "P (xs ! i)" "\<forall>j<i. \<not> P (xs ! j)"
proof -
  from assms have ex: "\<exists>i. i < length xs \<and> P (xs ! i)"
    by (auto simp: list_ex_iff in_set_conv_nth)
  define i where "i = (LEAST i. i < length xs \<and> P (xs ! i))"
  have "i < length xs \<and> P (xs ! i)" unfolding i_def using ex by (rule LeastI_ex)
  moreover have "\<forall>j<i. \<not> P (xs ! j)"
  proof (intro allI impI notI)
    fix j assume "j < i" "P (xs ! j)"
    moreover from \<open>j < i\<close> \<open>i < length xs \<and> P (xs ! i)\<close> have "j < length xs" by simp
    ultimately show False using not_less_Least[of j "\<lambda>i. i < length xs \<and> P (xs ! i)"]
      unfolding i_def by blast
  qed
  ultimately show thesis using that by blast
qed

lemma spec_scenario:
  "timeMap_totalDuration twoSegs = 18
   \<and> outputToSource (blocksFrom tz 0 twoSegs) 5 = Some 5
   \<and> outputToSource (blocksFrom tz 0 twoSegs) 11 = Some 13
   \<and> sourceToOutput (blocksFrom tz 0 twoSegs) 13 = Some 11
   \<and> sourceToOutput (blocksFrom tz 0 twoSegs) 11 = Some 10"
  by (simp add: timeMap_totalDuration_def segDuration_def twoSegs_def mkSeg_def
      outputToSource_def sourceToOutput_def Let_def)

text \<open>
  C1 as stated fails for segments whose source ranges overlap, which the segment invariant
  allows: with the kept ranges 0 to 10, 5 to 8 and 4 to 6, the source time 10 maps to output
  time 10, output time 10 is the start of the second segment and maps back to source time
  5, and source time 5 maps to output time 5.
\<close>

theorem round_trip_counterexample:
  "validSegments overlappingSegs \<and> insideKept overlappingSegs 10
   \<and> sourceToOutput (segmentBlocks 50 (Some (sampleConfig overlappingSegs []))) 10 = Some 10
   \<and> outputToSource (segmentBlocks 50 (Some (sampleConfig overlappingSegs []))) 10 = Some 5
   \<and> roundTrip (segmentBlocks 50 (Some (sampleConfig overlappingSegs []))) 10 = Some 5"
  by (simp add: validSegments_def insideKept_def overlappingSegs_def mkSeg_def sampleConfig_def
      segmentBlocks_def roundTrip_def outputToSource_def sourceToOutput_def Let_def)


lemma valid_nonneg:
  "validSegments segs \<Longrightarrow> list_all (\<lambda>seg. sourceStart seg \<le> sourceEnd seg) segs"
  by (auto simp: validSegments_def list_all_iff intro: less_imp_le)

lemma valid_pos: "validSegments segs \<Longrightarrow> i < length segs \<Longrightarrow> 0 < segDuration (segs ! i)"
  by (auto simp: validSegments_def list_all_iff segDuration_def)

lemma sourceToOutput_at:
  assumes "i < length segs"
    and "sourceStart (segs ! i) \<le> s \<and> s \<le> sourceEnd (segs ! i)"
    and "\<forall>j<i. \<not> (sourceStart (segs ! j) \<le> s \<and> s \<le> sourceEnd (segs ! j))"
  shows "sourceToOutput (blocksFrom tz 0 segs) s
           = Some (sum_list (map segDuration (take i segs)) + (s - sourceStart (segs ! i)))"
proof -
  let ?bs = "blocksFrom tz 0 segs"
  let ?P = "\<lambda>b :: SegmentBlock. sourceStart b \<le> s \<and> s \<le> sourceEnd b"
  have len: "i < length ?bs" using assms(1) by (simp add: blocksFrom_length)
  have here: "?P (?bs ! i)" using blocksFrom_nth[OF assms(1), of tz 0] assms(2) by simp
  have before: "\<forall>j<i. \<not> ?P (?bs ! j)"
  proof (intro allI impI)
    fix j assume "j < i"
    then have "j < length segs" using assms(1) by simp
    from blocksFrom_nth[OF this, of tz 0] assms(3) \<open>j < i\<close> show "\<not> ?P (?bs ! j)" by simp
  qed
  have "find ?P ?bs = Some (?bs ! i)" using len here before by (rule find_least)
  then show ?thesis
    using blocksFrom_nth[OF assms(1), of tz 0] by (simp add: sourceToOutput_def)
qed

lemma outputToSource_in:
  assumes "list_all (\<lambda>seg. sourceStart seg \<le> sourceEnd seg) segs" and "i < length segs"
    and "sum_list (map segDuration (take i segs)) \<le> t"
    and "t < sum_list (map segDuration (take (Suc i) segs))"
  shows "outputToSource (blocksFrom tz 0 segs) t
           = Some (sourceStart (segs ! i) + (t - sum_list (map segDuration (take i segs))))"
proof -
  let ?bs = "blocksFrom tz 0 segs"
  let ?P = "\<lambda>b :: SegmentBlock. outputStart b \<le> t \<and> t < outputEnd b"
  have len: "i < length ?bs" using assms(2) by (simp add: blocksFrom_length)
  have here: "?P (?bs ! i)" using blocksFrom_nth[OF assms(2), of tz 0] assms(3) assms(4) by simp
  have before: "\<forall>j<i. \<not> ?P (?bs ! j)"
  proof (intro allI impI)
    fix j assume ji: "j < i"
    then have jl: "j < length segs" using assms(2) by simp
    have "sum_list (map segDuration (take (Suc j) segs)) \<le> sum_list (map segDuration (take i segs))"
      using sum_take_mono[OF assms(1), of "Suc j" i] ji by simp
    then have "outputEnd (?bs ! j) \<le> t" using blocksFrom_nth[OF jl, of tz 0] assms(3) by simp
    then show "\<not> ?P (?bs ! j)" by simp
  qed
  have "find ?P ?bs = Some (?bs ! i)" using len here before by (rule find_least)
  then show ?thesis
    using blocksFrom_nth[OF assms(2), of tz 0] by (simp add: outputToSource_def)
qed

lemma outputToSource_end:
  assumes "list_all (\<lambda>seg. sourceStart seg \<le> sourceEnd seg) segs" and "segs \<noteq> []"
    and "sum_list (map segDuration segs) \<le> t"
  shows "outputToSource (blocksFrom tz 0 segs) t = Some (sourceEnd (last segs))"
proof -
  let ?bs = "blocksFrom tz 0 segs"
  let ?P = "\<lambda>b :: SegmentBlock. outputStart b \<le> t \<and> t < outputEnd b"
  have ne: "?bs \<noteq> []" using assms(2) blocksFrom_length[of tz 0 segs] by auto
  have all: "\<forall>b \<in> set ?bs. outputEnd b \<le> t"
  proof
    fix b assume "b \<in> set ?bs"
    then obtain j where j: "j < length segs" "b = ?bs ! j"
      by (auto simp: in_set_conv_nth blocksFrom_length)
    have "sum_list (map segDuration (take (Suc j) segs))
            \<le> sum_list (map segDuration (take (length segs) segs))"
      using sum_take_mono[OF assms(1), of "Suc j" "length segs"] j(1) by simp
    then show "outputEnd b \<le> t" using blocksFrom_nth[OF j(1), of tz 0] j(2) assms(3) by simp
  qed
  then have none: "find ?P ?bs = None" by (auto simp: find_None_iff)
  have lastb: "last ?bs = ?bs ! (length segs - 1)"
    using ne by (simp add: last_conv_nth blocksFrom_length)
  have l: "length segs - 1 < length segs" using assms(2) by simp
  have "sourceEnd (last ?bs) = sourceEnd (last segs)"
    using blocksFrom_nth[OF l, of tz 0] lastb assms(2) by (simp add: last_conv_nth)
  moreover have "outputEnd (last ?bs) \<le> t" using all ne by simp
  ultimately show ?thesis using none ne by (simp add: outputToSource_def)
qed


lemma round_trip_blocks:
  assumes valid: "validSegments segs" and inside: "insideKept segs s"
    and side: "sourceOrdered segs \<or> notAtSegmentEnd segs s"
  shows "\<exists>t. sourceToOutput (blocksFrom tz 0 segs) s = Some t
           \<and> roundTrip (blocksFrom tz 0 segs) s = Some t"
proof -
  let ?bs = "blocksFrom tz 0 segs"
  let ?S = "\<lambda>i. sum_list (map segDuration (take i segs))"
  let ?P = "\<lambda>x (sg :: SegmentConfig). sourceStart sg \<le> x \<and> x \<le> sourceEnd sg"
  note nonneg = valid_nonneg[OF valid]
  have ne: "segs \<noteq> []" using valid by (simp add: validSegments_def)
  from inside have "list_ex (?P s) segs" by (simp add: insideKept_def)
  then obtain i0 where i0: "i0 < length segs" "?P s (segs ! i0)" "\<forall>j<i0. \<not> ?P s (segs ! j)"
    by (rule first_index)
  let ?t = "?S i0 + (s - sourceStart (segs ! i0))"
  have s2o: "sourceToOutput ?bs s = Some ?t" using i0 by (rule sourceToOutput_at)
  have Suc0: "?S (Suc i0) = ?S i0 + segDuration (segs ! i0)" using i0(1) by (rule take_Suc_sum)
  have rt: "\<exists>s'. outputToSource ?bs ?t = Some s' \<and> sourceToOutput ?bs s' = Some ?t"
  proof (cases "s < sourceEnd (segs ! i0)")
    case True
    have "?S i0 \<le> ?t" using i0(2) by simp
    moreover have "?t < ?S (Suc i0)" using True Suc0 by (simp add: segDuration_def)
    ultimately have "outputToSource ?bs ?t = Some (sourceStart (segs ! i0) + (?t - ?S i0))"
      using outputToSource_in[OF nonneg i0(1)] by blast
    then have "outputToSource ?bs ?t = Some s" by simp
    then show ?thesis using s2o by blast
  next
    case False
    then have at_end: "s = sourceEnd (segs ! i0)" using i0(2) by simp
    then have "\<not> notAtSegmentEnd segs s"
      using i0(1) by (auto simp: notAtSegmentEnd_def list_all_iff)
    then have "sourceOrdered segs" using side by blast
    then have ordered: "\<And>i j. i < j \<Longrightarrow> j < length segs \<Longrightarrow>
        sourceEnd (segs ! i) \<le> sourceStart (segs ! j)"
      by (simp add: sourceOrdered_def sorted_wrt_iff_nth_less)
    have t_eq: "?t = ?S (Suc i0)" using at_end Suc0 by (simp add: segDuration_def)
    show ?thesis
    proof (cases "Suc i0 < length segs")
      case False
      then have last_i: "Suc i0 = length segs" using i0(1) by simp
      then have "sum_list (map segDuration segs) \<le> ?t" using t_eq by simp
      then have "outputToSource ?bs ?t = Some (sourceEnd (last segs))"
        using outputToSource_end[OF nonneg ne] by blast
      moreover have "length segs - 1 = i0" using last_i by simp
      then have "last segs = segs ! i0" using ne by (simp add: last_conv_nth)
      ultimately have "outputToSource ?bs ?t = Some s" using at_end by simp
      then show ?thesis using s2o by blast
    next
      case True
      let ?i1 = "Suc i0"
      let ?s' = "sourceStart (segs ! ?i1)"
      have pos1: "0 < segDuration (segs ! ?i1)" using valid True by (rule valid_pos)
      have Suc1: "?S (Suc ?i1) = ?S ?i1 + segDuration (segs ! ?i1)" using True by (rule take_Suc_sum)
      have "?S ?i1 \<le> ?t" using t_eq by simp
      moreover have "?t < ?S (Suc ?i1)" using t_eq Suc1 pos1 by simp
      ultimately have "outputToSource ?bs ?t = Some (?s' + (?t - ?S ?i1))"
        using outputToSource_in[OF nonneg True] by blast
      then have o2s: "outputToSource ?bs ?t = Some ?s'" using t_eq by simp
      have at1: "?P ?s' (segs ! ?i1)" using pos1 by (simp add: segDuration_def)
      then have "list_ex (?P ?s') segs" using True by (auto simp: list_ex_iff)
      then obtain k where k: "k < length segs" "?P ?s' (segs ! k)" "\<forall>j<k. \<not> ?P ?s' (segs ! j)"
        by (rule first_index)
      have kle: "k \<le> ?i1" using k(3) at1 by (meson not_less)
      have s2o': "sourceToOutput ?bs ?s' = Some (?S k + (?s' - sourceStart (segs ! k)))"
        using k by (rule sourceToOutput_at)
      have "?S k + (?s' - sourceStart (segs ! k)) = ?t"
      proof (cases "k = ?i1")
        case True
        then show ?thesis using t_eq by simp
      next
        case False
        then have klt: "k < ?i1" using kle by simp
        have "sourceEnd (segs ! k) \<le> ?s'" using ordered[OF klt True] .
        then have ends: "?s' = sourceEnd (segs ! k)" using k(2) by simp
        have "k = i0"
        proof (rule ccontr)
          assume "k \<noteq> i0"
          then have "k < i0" using klt by simp
          then have "sourceEnd (segs ! k) \<le> sourceStart (segs ! i0)" using ordered i0(1) by blast
          moreover have "sourceStart (segs ! i0) < sourceEnd (segs ! i0)"
            using valid_pos[OF valid i0(1)] by (simp add: segDuration_def)
          moreover have "sourceEnd (segs ! i0) \<le> ?s'" using ordered[of i0 ?i1] True by simp
          ultimately show False using ends by simp
        qed
        then show ?thesis using ends t_eq Suc0 by (simp add: segDuration_def)
      qed
      then show ?thesis using o2s s2o' by simp
    qed
  qed
  then obtain s' where "outputToSource ?bs ?t = Some s'" "sourceToOutput ?bs s' = Some ?t"
    by blast
  then have "roundTrip ?bs s = Some ?t" using s2o by (simp add: roundTrip_def)
  then show ?thesis using s2o by blast
qed

text \<open>
  C1, as amended.  For a segment list with \<open>sourceEnd > sourceStart\<close> for each segment and at
  least one segment, and a source time \<open>s\<close> inside a kept segment, the round trip
  \<open>sourceToOutput (outputToSource (sourceToOutput s))\<close> is defined and equals
  \<open>sourceToOutput s\<close> exactly, hence within 1 ms, provided the segments are in source order
  without overlap (each ends at or before the start of every later one) or \<open>s\<close> is not the
  \<open>sourceEnd\<close> of any segment.
\<close>

theorem round_trip:
  assumes "validSegments (segments cfg)" and "insideKept (segments cfg) s"
    and "sourceOrdered (segments cfg) \<or> notAtSegmentEnd (segments cfg) s"
  shows "sourceToOutput (segmentBlocks tz (Some cfg)) s \<noteq> None
       \<and> roundTrip (segmentBlocks tz (Some cfg)) s = sourceToOutput (segmentBlocks tz (Some cfg)) s
       \<and> (case (roundTrip (segmentBlocks tz (Some cfg)) s,
                 sourceToOutput (segmentBlocks tz (Some cfg)) s) of
             (Some a, Some b) \<Rightarrow> \<bar>a - b\<bar> \<le> 1 / 1000
           | _ \<Rightarrow> False)"
  using round_trip_blocks[OF assms, of tz] by (auto simp: segmentBlocks_def)

theorem round_trip_witness:
  "validSegments (segments (sampleConfig twoSegs []))
   \<and> insideKept (segments (sampleConfig twoSegs [])) 10
   \<and> sourceOrdered (segments (sampleConfig twoSegs []))
   \<and> sourceToOutput (segmentBlocks 50 (Some (sampleConfig twoSegs []))) 10 = Some 10
   \<and> roundTrip (segmentBlocks 50 (Some (sampleConfig twoSegs []))) 10 = Some 10
   \<and> validSegments (segments (sampleConfig overlappingSegs []))
   \<and> insideKept (segments (sampleConfig overlappingSegs [])) 7
   \<and> notAtSegmentEnd (segments (sampleConfig overlappingSegs [])) 7
   \<and> roundTrip (segmentBlocks 50 (Some (sampleConfig overlappingSegs []))) 7 = Some 7"
proof -
  have h1: "validSegments (segments (sampleConfig twoSegs []))"
    and h2: "insideKept (segments (sampleConfig twoSegs [])) 10"
    and h3: "sourceOrdered (segments (sampleConfig twoSegs []))"
    by (simp_all add: validSegments_def insideKept_def sourceOrdered_def sampleConfig_def
        twoSegs_def mkSeg_def)
  have g1: "validSegments (segments (sampleConfig overlappingSegs []))"
    and g2: "insideKept (segments (sampleConfig overlappingSegs [])) 7"
    and g3: "notAtSegmentEnd (segments (sampleConfig overlappingSegs [])) 7"
    by (simp_all add: validSegments_def insideKept_def notAtSegmentEnd_def sampleConfig_def
        overlappingSegs_def mkSeg_def)
  have v1: "sourceToOutput (segmentBlocks 50 (Some (sampleConfig twoSegs []))) 10 = Some 10"
    by (simp add: segmentBlocks_def sourceToOutput_def sampleConfig_def twoSegs_def mkSeg_def
        Let_def)
  have v2: "sourceToOutput (segmentBlocks 50 (Some (sampleConfig overlappingSegs []))) 7 = Some 7"
    by (simp add: segmentBlocks_def sourceToOutput_def sampleConfig_def overlappingSegs_def
        mkSeg_def Let_def)
  note a = round_trip[OF h1 h2 disjI1[OF h3], of 50]
  note b = round_trip[OF g1 g2 disjI2[OF g3], of 50]
  show ?thesis using h1 h2 h3 g1 g2 g3 v1 v2 a b by simp
qed

end
